theory Spec2Isabelle
  imports Main "HOL-Library.Product_Lexorder" "HOL-Library.Multiset"
begin

section \<open>Data model\<close>

text \<open>
  The program is two Python files: \<^verbatim>\<open>src/app/aws.py\<close> (class \<^verbatim>\<open>AWSOrganization\<close>) and
  \<^verbatim>\<open>src/app/main.py\<close> (\<^verbatim>\<open>get_credentials\<close>, \<^verbatim>\<open>main\<close>). Everything they do beyond
  computing strings is a call into a library that is not part of the repository:
  \<^verbatim>\<open>boto3\<close> (AWS), \<^verbatim>\<open>glueops.getoutline\<close> (the document store), \<^verbatim>\<open>json\<close> and
  \<^verbatim>\<open>os.getenv\<close>. Those libraries are parameters of the model (the record \<open>world\<close>
  below); the code of the repository is translated function by function.
\<close>

subsection \<open>Exceptions\<close>

text \<open>
  A raised exception is a value. \<open>EnvironmentError\<close> and \<open>ValueError\<close> are raised by
  \<^verbatim>\<open>get_credentials\<close> itself, \<open>KeyError\<close> and \<open>TypeError\<close> by subscripting and
  iterating parsed JSON, \<open>ExternalError\<close> stands for whatever an external library raises
  (a \<^verbatim>\<open>botocore\<close> client error, a \<^verbatim>\<open>requests\<close> exception). Every
  \<^verbatim>\<open>except Exception as e: log; raise\<close> of the source re-raises the same exception, so
  the handlers are the identity on these values.
\<close>

datatype error =
    EnvironmentError string
  | ValueError string
  | KeyError string
  | TypeError
  | ExternalError string

subsection \<open>Parsed JSON\<close>

text \<open>
  What \<^verbatim>\<open>json.loads\<close> returns. A Python \<^verbatim>\<open>dict\<close> has each key once; it is an
  association list here, read with \<open>map_of\<close>. The code never inspects a number, so
  numbers are integers.
\<close>

datatype json =
    JNull
  | JBool bool
  | JNumber int
  | JString string
  | JArray "json list"
  | JObject "(string \<times> json) list"

text \<open>\<^verbatim>\<open>obj[key]\<close> for a string key: only a \<^verbatim>\<open>dict\<close> can answer, and it raises
  \<^verbatim>\<open>KeyError\<close> when the key is missing; every other JSON value raises \<^verbatim>\<open>TypeError\<close>.\<close>

fun subscript :: "json \<Rightarrow> string \<Rightarrow> error + json" where
  "subscript (JObject kvs) k = (case map_of kvs k of None \<Rightarrow> Inl (KeyError k) | Some v \<Rightarrow> Inr v)"
| "subscript _ k = Inl TypeError"

text \<open>\<^verbatim>\<open>for x in obj\<close>: a list yields its elements, a \<^verbatim>\<open>dict\<close> its keys, a string its
  characters as one-character strings; \<^verbatim>\<open>None\<close>, a boolean and a number are not iterable.\<close>

fun py_iter :: "json \<Rightarrow> error + json list" where
  "py_iter (JArray xs) = Inr xs"
| "py_iter (JObject kvs) = Inr (map (\<lambda>kv. JString (fst kv)) kvs)"
| "py_iter (JString s) = Inr (map (\<lambda>c. JString [c]) s)"
| "py_iter _ = Inl TypeError"

subsection \<open>AWS responses\<close>

text \<open>
  A \<^verbatim>\<open>datetime\<close> as \<^verbatim>\<open>boto3\<close> returns it for \<^verbatim>\<open>JoinedTimestamp\<close>. All timestamps
  of one response carry the same time zone, so comparing two of them compares their fields
  in order (\<open>dt_key\<close>).
\<close>

record datetime =
  year :: nat
  month :: nat
  day :: nat
  hour :: nat
  minute :: nat
  second :: nat
  microsecond :: nat

definition dt_key :: "datetime \<Rightarrow> nat \<times> nat \<times> nat \<times> nat \<times> nat \<times> nat \<times> nat" where
  "dt_key d = (year d, month d, day d, hour d, minute d, second d, microsecond d)"


definition digit_char :: "nat \<Rightarrow> char" where
  "digit_char n = ''0123456789'' ! (n mod 10)"

text \<open>\<^verbatim>\<open>strftime('%Y-%m-%d')\<close>: the year as four digits, month and day as two, zero
  padded, as the Python documentation gives them.\<close>

definition strftime_Ymd :: "datetime \<Rightarrow> string" where
  "strftime_Ymd d =
     [digit_char (year d div 1000), digit_char (year d div 100),
      digit_char (year d div 10), digit_char (year d)] @ ''-'' @
     [digit_char (month d div 10), digit_char (month d)] @ ''-'' @
     [digit_char (day d div 10), digit_char (day d)]"

text \<open>An element of \<^verbatim>\<open>page['Accounts']\<close>, of \<^verbatim>\<open>response['Tags']\<close>, of
  \<^verbatim>\<open>page['Users']\<close> and of \<^verbatim>\<open>response['AccessKeyMetadata']\<close>, with the keys the code
  reads (\<open>Id'\<close> is the key \<^verbatim>\<open>'Id'\<close>).\<close>

record account =
  Id' :: string
  Name :: string
  Email :: string
  JoinedTimestamp :: datetime

record tag =
  Key :: string
  Value :: string

record iam_user =
  UserName :: string

record access_key =
  AccessKeyId :: string

subsection \<open>The outside world\<close>

text \<open>
  A \<^verbatim>\<open>boto3\<close> client is the service name and the credentials it was built with; the
  document-store client is the three arguments of its constructor. Building either one
  issues no request.
\<close>

datatype client = Client string json json

record outline_client =
  api_url :: string
  document_id :: string
  api_token :: string

datatype aws_op =
    ListAccounts
  | ListTagsForResource string
  | ListUsers
  | ListAccessKeys string
  | ListUserTags string

text \<open>The requests a run issues, in the order it issues them.\<close>

datatype event =
    GetDocumentUuid
  | GetChildren string
  | DeleteDocument string
  | CreateDocument string json string
  | AwsCall client aws_op

text \<open>
  The external libraries. Every request is answered from the requests issued so far
  (the first argument), so the answer to the same request may change during a run.
  A call returns (\<open>Inr\<close>) or raises (\<open>Inl\<close>): an exception is the only failure the
  code reacts to. \<^verbatim>\<open>main\<close> does not look at what \<^verbatim>\<open>delete_document\<close> and
  \<^verbatim>\<open>create_document\<close> return (lines 93 and 115), so they return \<open>()\<close> here. A
  paginated listing answers with its pages.
  \<open>py_str\<close> is Python's \<^verbatim>\<open>str()\<close> on a JSON value that is not a string.
\<close>

record world =
  outline_get_document_uuid :: "event list \<Rightarrow> outline_client \<Rightarrow> error + string"
  outline_get_children :: "event list \<Rightarrow> outline_client \<Rightarrow> string \<Rightarrow> error + string list"
  outline_delete_document :: "event list \<Rightarrow> outline_client \<Rightarrow> string \<Rightarrow> error + unit"
  outline_create_document ::
    "event list \<Rightarrow> outline_client \<Rightarrow> string \<Rightarrow> json \<Rightarrow> string \<Rightarrow> error + unit"
  aws_list_accounts :: "event list \<Rightarrow> client \<Rightarrow> error + account list list"
  aws_list_tags_for_resource :: "event list \<Rightarrow> client \<Rightarrow> string \<Rightarrow> error + tag list"
  aws_list_users :: "event list \<Rightarrow> client \<Rightarrow> error + iam_user list list"
  aws_list_access_keys :: "event list \<Rightarrow> client \<Rightarrow> string \<Rightarrow> error + access_key list"
  aws_list_user_tags :: "event list \<Rightarrow> client \<Rightarrow> string \<Rightarrow> error + tag list"
  json_loads :: "string \<Rightarrow> json option"
  py_str :: "json \<Rightarrow> string"

text \<open>The result of an effectful function: what it returned or raised, and the requests
  issued so far.\<close>

type_synonym 'a result = "(error + 'a) \<times> event list"

section \<open>aws.py: class AWSOrganization\<close>

record AWSOrganization =
  aws_account_name :: json
  aws_access_key_id :: json
  aws_secret_access_key :: json

definition get_aws_client :: "AWSOrganization \<Rightarrow> string \<Rightarrow> client" where
  "get_aws_client self service_name =
     Client service_name (aws_access_key_id self) (aws_secret_access_key self)"

text \<open>Lines 40-49: the pages are appended in order.\<close>

definition get_aws_accounts :: "world \<Rightarrow> client \<Rightarrow> event list \<Rightarrow> account list result" where
  "get_aws_accounts w org_client tr =
     (case aws_list_accounts w tr org_client of
        Inl e \<Rightarrow> (Inl e, tr @ [AwsCall org_client ListAccounts])
      | Inr pages \<Rightarrow> (Inr (foldl (\<lambda>accounts page. accounts @ page) [] pages),
                      tr @ [AwsCall org_client ListAccounts]))"

text \<open>Lines 65-68: the first tag whose key is \<^verbatim>\<open>'Description'\<close> returns from the loop.\<close>

fun get_account_tags_loop :: "tag list \<Rightarrow> string" where
  "get_account_tags_loop [] = ''No Description''"
| "get_account_tags_loop (t # tags) =
     (if Key t = ''Description'' then Value t else get_account_tags_loop tags)"

definition get_account_tags :: "world \<Rightarrow> client \<Rightarrow> string \<Rightarrow> event list \<Rightarrow> string result" where
  "get_account_tags w org_client account_id tr =
     (case aws_list_tags_for_resource w tr org_client account_id of
        Inl e \<Rightarrow> (Inl e, tr @ [AwsCall org_client (ListTagsForResource account_id)])
      | Inr tags \<Rightarrow> (Inr (get_account_tags_loop tags),
                     tr @ [AwsCall org_client (ListTagsForResource account_id)]))"

definition list_iam_users :: "world \<Rightarrow> AWSOrganization \<Rightarrow> event list \<Rightarrow> iam_user list result" where
  "list_iam_users w self tr =
     (let iam_client = get_aws_client self ''iam'' in
      case aws_list_users w tr iam_client of
        Inl e \<Rightarrow> (Inl e, tr @ [AwsCall iam_client ListUsers])
      | Inr pages \<Rightarrow> (Inr (foldl (\<lambda>users page. users @ page) [] pages),
                      tr @ [AwsCall iam_client ListUsers]))"

definition get_user_access_keys ::
  "world \<Rightarrow> AWSOrganization \<Rightarrow> string \<Rightarrow> event list \<Rightarrow> access_key list result" where
  "get_user_access_keys w self user_name tr =
     (let iam_client = get_aws_client self ''iam'' in
      case aws_list_access_keys w tr iam_client user_name of
        Inl e \<Rightarrow> (Inl e, tr @ [AwsCall iam_client (ListAccessKeys user_name)])
      | Inr keys \<Rightarrow> (Inr keys, tr @ [AwsCall iam_client (ListAccessKeys user_name)]))"

text \<open>The f-string \<^verbatim>\<open>f"{v}"\<close>: a string is inserted as it is, any other value through
  \<^verbatim>\<open>str()\<close>.\<close>

definition py_format :: "world \<Rightarrow> json \<Rightarrow> string" where
  "py_format w v = (case v of JString s \<Rightarrow> s | _ \<Rightarrow> py_str w v)"

definition nl :: char where
  "nl = CHR 0x0A"

definition page_header :: "string \<Rightarrow> string" where
  "page_header label =
     ''> This page is automatically generated. Any manual changes will be lost. See: https://github.com/GlueOps/getoutline-docs-update-aws-organizations '' @ [nl, nl] @
     ''# AWS ROOT Organization Details for '' @ label @ [nl, nl] @
     ''| AWS Account ID | Account Name | Description | Account Email | Created Date |'' @ [nl] @
     ''|----------------|--------------|-------------|---------------|--------------|'' @ [nl]"

definition account_row :: "account \<Rightarrow> string \<Rightarrow> string" where
  "account_row a description =
     ''| '' @ Id' a @ '' | '' @ Name a @ '' | '' @ description @ '' | '' @ Email a @
     '' | '' @ strftime_Ymd (JoinedTimestamp a) @ '' |'' @ [nl]"

definition users_header :: string where
  "users_header =
     [nl, nl] @ ''| IAM User Name | Access Key ID | Description |'' @ [nl] @
     ''|---------------|---------------|-------------|'' @ [nl]"

definition no_key_row :: "string \<Rightarrow> string" where
  "no_key_row user_name = ''| '' @ user_name @ '' | No Access Key | No Description |'' @ [nl]"

definition key_row :: "string \<Rightarrow> string \<Rightarrow> string \<Rightarrow> string" where
  "key_row user_name access_key_id description =
     ''| '' @ user_name @ '' | '' @ access_key_id @ '' | '' @ description @ '' |'' @ [nl]"

text \<open>Lines 129-135: one tag request and one row per account.\<close>

fun accounts_loop :: "world \<Rightarrow> client \<Rightarrow> account list \<Rightarrow> string \<Rightarrow> event list \<Rightarrow> string result" where
  "accounts_loop w org_client [] markdown_content tr = (Inr markdown_content, tr)"
| "accounts_loop w org_client (a # accounts) markdown_content tr =
     (case get_account_tags w org_client (Id' a) tr of
        (Inl e, tr') \<Rightarrow> (Inl e, tr')
      | (Inr description, tr') \<Rightarrow>
          accounts_loop w org_client accounts (markdown_content @ account_row a description) tr')"

text \<open>Lines 150-152: every tag whose key is \<^verbatim>\<open>'description'\<close> overwrites the description;
  the loop has no \<^verbatim>\<open>break\<close>.\<close>

fun user_tags_loop :: "tag list \<Rightarrow> string \<Rightarrow> string" where
  "user_tags_loop [] description = description"
| "user_tags_loop (t # tags) description =
     user_tags_loop tags (if Key t = ''description'' then Value t else description)"

text \<open>Lines 146-153: for each access key the user's tags are requested again.\<close>

fun access_keys_loop ::
  "world \<Rightarrow> AWSOrganization \<Rightarrow> string \<Rightarrow> access_key list \<Rightarrow> string \<Rightarrow> event list \<Rightarrow> string result" where
  "access_keys_loop w self user_name [] markdown_content tr = (Inr markdown_content, tr)"
| "access_keys_loop w self user_name (k # access_keys) markdown_content tr =
     (case aws_list_user_tags w tr (get_aws_client self ''iam'') user_name of
        Inl e \<Rightarrow> (Inl e, tr @ [AwsCall (get_aws_client self ''iam'') (ListUserTags user_name)])
      | Inr tags \<Rightarrow>
          access_keys_loop w self user_name access_keys
            (markdown_content
               @ key_row user_name (AccessKeyId k) (user_tags_loop tags ''No Description''))
            (tr @ [AwsCall (get_aws_client self ''iam'') (ListUserTags user_name)]))"

text \<open>Lines 140-153.\<close>

fun users_loop ::
  "world \<Rightarrow> AWSOrganization \<Rightarrow> iam_user list \<Rightarrow> string \<Rightarrow> event list \<Rightarrow> string result" where
  "users_loop w self [] markdown_content tr = (Inr markdown_content, tr)"
| "users_loop w self (u # users) markdown_content tr =
     (case get_user_access_keys w self (UserName u) tr of
        (Inl e, tr') \<Rightarrow> (Inl e, tr')
      | (Inr access_keys, tr') \<Rightarrow>
          if access_keys = []
          then users_loop w self users (markdown_content @ no_key_row (UserName u)) tr'
          else (case access_keys_loop w self (UserName u) access_keys markdown_content tr' of
                  (Inl e, tr'') \<Rightarrow> (Inl e, tr'')
                | (Inr markdown_content', tr'') \<Rightarrow> users_loop w self users markdown_content' tr''))"

text \<open>Lines 121-159. \<^verbatim>\<open>sorted\<close> is stable, as \<open>sort_key\<close> is.\<close>

definition create_markdown ::
  "world \<Rightarrow> AWSOrganization \<Rightarrow> account list \<Rightarrow> client \<Rightarrow> event list \<Rightarrow> string result" where
  "create_markdown w self accounts org_client tr =
     (case accounts_loop w org_client (sort_key (\<lambda>x. dt_key (JoinedTimestamp x)) accounts)
             (page_header (py_format w (aws_account_name self))) tr of
        (Inl e, tr') \<Rightarrow> (Inl e, tr')
      | (Inr markdown_content, tr') \<Rightarrow>
          (case list_iam_users w self tr' of
             (Inl e, tr'') \<Rightarrow> (Inl e, tr'')
           | (Inr users, tr'') \<Rightarrow> users_loop w self users (markdown_content @ users_header) tr''))"

section \<open>main.py\<close>

text \<open>Lines 30-38. \<^verbatim>\<open>os.getenv\<close> reads the map \<open>environ\<close>; \<^verbatim>\<open>not credentials_json\<close>
  holds for \<^verbatim>\<open>None\<close> and for the empty string. A \<^verbatim>\<open>KeyError\<close> or \<^verbatim>\<open>TypeError\<close> of
  \<^verbatim>\<open>credentials['accounts']\<close> is not caught.\<close>

definition get_credentials :: "world \<Rightarrow> (string \<rightharpoonup> string) \<Rightarrow> error + json" where
  "get_credentials w environ =
     (case environ ''AWS_CREDENTIALS_JSON'' of
        None \<Rightarrow> Inl (EnvironmentError ''AWS_CREDENTIALS_JSON environment variable not set.'')
      | Some credentials_json \<Rightarrow>
          if credentials_json = []
          then Inl (EnvironmentError ''AWS_CREDENTIALS_JSON environment variable not set.'')
          else (case json_loads w credentials_json of
                  None \<Rightarrow> Inl (ValueError ''Invalid JSON in AWS_CREDENTIALS_JSON.'')
                | Some credentials \<Rightarrow> subscript credentials ''accounts''))"

definition GETOUTLINE_API_URL :: string where
  "GETOUTLINE_API_URL = ''https://app.getoutline.com''"

text \<open>The module-level settings \<^verbatim>\<open>main\<close> reads (lines 68-69).\<close>

record config =
  GETOUTLINE_DOCUMENT_ID :: string
  GETOUTLINE_API_TOKEN :: string

text \<open>Line 87: the client is built from the constant and the two settings.\<close>

definition GetOutlineClient :: "config \<Rightarrow> outline_client" where
  "GetOutlineClient cfg =
     \<lparr>api_url = GETOUTLINE_API_URL, document_id = GETOUTLINE_DOCUMENT_ID cfg,
      api_token = GETOUTLINE_API_TOKEN cfg\<rparr>"

text \<open>The four methods of \<^verbatim>\<open>GetOutlineClient\<close> that \<^verbatim>\<open>main\<close> calls: each is one request.\<close>

definition get_document_uuid :: "world \<Rightarrow> outline_client \<Rightarrow> event list \<Rightarrow> string result" where
  "get_document_uuid w oc tr = (outline_get_document_uuid w tr oc, tr @ [GetDocumentUuid])"

definition get_children_documents_to_delete ::
  "world \<Rightarrow> outline_client \<Rightarrow> string \<Rightarrow> event list \<Rightarrow> string list result" where
  "get_children_documents_to_delete w oc parent_id tr =
     (outline_get_children w tr oc parent_id, tr @ [GetChildren parent_id])"

definition delete_document :: "world \<Rightarrow> outline_client \<Rightarrow> string \<Rightarrow> event list \<Rightarrow> unit result" where
  "delete_document w oc doc_id tr = (outline_delete_document w tr oc doc_id, tr @ [DeleteDocument doc_id])"

definition create_document ::
  "world \<Rightarrow> outline_client \<Rightarrow> string \<Rightarrow> json \<Rightarrow> string \<Rightarrow> event list \<Rightarrow> unit result" where
  "create_document w oc parent_id title body tr =
     (outline_create_document w tr oc parent_id title body, tr @ [CreateDocument parent_id title body])"

text \<open>Lines 92-93.\<close>

fun delete_loop :: "world \<Rightarrow> outline_client \<Rightarrow> string list \<Rightarrow> event list \<Rightarrow> unit result" where
  "delete_loop w oc [] tr = (Inr (), tr)"
| "delete_loop w oc (i # children) tr =
     (case delete_document w oc i tr of
        (Inl e, tr') \<Rightarrow> (Inl e, tr')
      | (Inr _, tr') \<Rightarrow> delete_loop w oc children tr')"

text \<open>Lines 102-116, the body of the loop over the credentials. The pair is the loop's
  two variables \<^verbatim>\<open>all_accounts\<close> and \<^verbatim>\<open>markdown_content\<close>.\<close>

definition process_creds ::
  "world \<Rightarrow> outline_client \<Rightarrow> string \<Rightarrow> json \<Rightarrow> account list \<times> string \<Rightarrow> event list
     \<Rightarrow> (account list \<times> string) result" where
  "process_creds w oc parent_id creds vars tr =
     (case subscript creds ''name'' of
        Inl e \<Rightarrow> (Inl e, tr)
      | Inr account_name \<Rightarrow>
     (case subscript creds ''access_key'' of
        Inl e \<Rightarrow> (Inl e, tr)
      | Inr access_key \<Rightarrow>
     (case subscript creds ''secret_key'' of
        Inl e \<Rightarrow> (Inl e, tr)
      | Inr secret_key \<Rightarrow>
     (let aws_org = \<lparr>aws_account_name = account_name, aws_access_key_id = access_key,
                      aws_secret_access_key = secret_key\<rparr>;
          org_client = get_aws_client aws_org ''organizations''
      in case get_aws_accounts w org_client tr of
           (Inl e, tr1) \<Rightarrow> (Inl e, tr1)
         | (Inr accounts, tr1) \<Rightarrow>
        (case create_markdown w aws_org accounts org_client tr1 of
           (Inl e, tr2) \<Rightarrow> (Inl e, tr2)
         | (Inr markdown_content, tr2) \<Rightarrow>
        (case create_document w oc parent_id account_name markdown_content tr2 of
           (Inl e, tr3) \<Rightarrow> (Inl e, tr3)
         | (Inr _, tr3) \<Rightarrow> (Inr (fst vars @ accounts, markdown_content), tr3)))))))"

text \<open>Lines 101-116.\<close>

fun creds_loop ::
  "world \<Rightarrow> outline_client \<Rightarrow> string \<Rightarrow> json list \<Rightarrow> account list \<times> string \<Rightarrow> event list
     \<Rightarrow> (account list \<times> string) result" where
  "creds_loop w oc parent_id [] vars tr = (Inr vars, tr)"
| "creds_loop w oc parent_id (creds # rest) vars tr =
     (case process_creds w oc parent_id creds vars tr of
        (Inl e, tr') \<Rightarrow> (Inl e, tr')
      | (Inr vars', tr') \<Rightarrow> creds_loop w oc parent_id rest vars' tr')"

text \<open>Lines 84-121. A run starts with no request issued. \<open>Inl e\<close> is the exception that
  leaves \<^verbatim>\<open>main\<close> (the process exits with a non-zero status), \<open>Inr ()\<close> a normal return.\<close>

definition main :: "world \<Rightarrow> config \<Rightarrow> (string \<rightharpoonup> string) \<Rightarrow> unit result" where
  "main w cfg environ =
     (let oc = GetOutlineClient cfg
      in case get_document_uuid w oc [] of
           (Inl e, tr1) \<Rightarrow> (Inl e, tr1)
         | (Inr parent_id, tr1) \<Rightarrow>
        (case get_children_documents_to_delete w oc parent_id tr1 of
           (Inl e, tr2) \<Rightarrow> (Inl e, tr2)
         | (Inr children, tr2) \<Rightarrow>
        (case delete_loop w oc children tr2 of
           (Inl e, tr3) \<Rightarrow> (Inl e, tr3)
         | (Inr _, tr3) \<Rightarrow>
        (case get_credentials w environ of
           Inl e \<Rightarrow> (Inl e, tr3)
         | Inr accounts_creds \<Rightarrow>
        (case py_iter accounts_creds of
           Inl e \<Rightarrow> (Inl e, tr3)
         | Inr creds_list \<Rightarrow>
        (case creds_loop w oc parent_id creds_list ([], []) tr3 of
           (Inl e, tr4) \<Rightarrow> (Inl e, tr4)
         | (Inr _, tr4) \<Rightarrow> (Inr (), tr4)))))))"

section \<open>The report as a function of the fetched data\<close>

text \<open>
  The specification describes the report as \<open>render(accounts, users)\<close>, a function of an
  organization's accounts, each with its description, and of its IAM users, each with its
  access keys and their descriptions. \<^verbatim>\<open>create_markdown\<close> fetches that data while it writes
  the text. The functions below issue the requests of \<^verbatim>\<open>create_markdown\<close>, in its order,
  and return the data instead of text; \<open>render\<close> follows the specification's words
  (section 4.3: sort by join time, header, one row per account, separator, the rows of
  each user).
\<close>

fun fetch_descriptions :: "world \<Rightarrow> client \<Rightarrow> account list \<Rightarrow> event list \<Rightarrow> string list result" where
  "fetch_descriptions w org_client [] tr = (Inr [], tr)"
| "fetch_descriptions w org_client (a # accounts) tr =
     (case get_account_tags w org_client (Id' a) tr of
        (Inl e, tr1) \<Rightarrow> (Inl e, tr1)
      | (Inr description, tr1) \<Rightarrow>
          (case fetch_descriptions w org_client accounts tr1 of
             (Inl e, tr2) \<Rightarrow> (Inl e, tr2)
           | (Inr ds, tr2) \<Rightarrow> (Inr (description # ds), tr2)))"

fun fetch_key_descriptions ::
  "world \<Rightarrow> AWSOrganization \<Rightarrow> string \<Rightarrow> access_key list \<Rightarrow> event list
     \<Rightarrow> (string \<times> string) list result" where
  "fetch_key_descriptions w self user_name [] tr = (Inr [], tr)"
| "fetch_key_descriptions w self user_name (k # access_keys) tr =
     (case aws_list_user_tags w tr (get_aws_client self ''iam'') user_name of
        Inl e \<Rightarrow> (Inl e, tr @ [AwsCall (get_aws_client self ''iam'') (ListUserTags user_name)])
      | Inr tags \<Rightarrow>
          (case fetch_key_descriptions w self user_name access_keys
                  (tr @ [AwsCall (get_aws_client self ''iam'') (ListUserTags user_name)]) of
             (Inl e, tr1) \<Rightarrow> (Inl e, tr1)
           | (Inr ks, tr1) \<Rightarrow>
               (Inr ((AccessKeyId k, user_tags_loop tags ''No Description'') # ks), tr1)))"

fun fetch_users ::
  "world \<Rightarrow> AWSOrganization \<Rightarrow> iam_user list \<Rightarrow> event list
     \<Rightarrow> (string \<times> (string \<times> string) list) list result" where
  "fetch_users w self [] tr = (Inr [], tr)"
| "fetch_users w self (u # users) tr =
     (case get_user_access_keys w self (UserName u) tr of
        (Inl e, tr1) \<Rightarrow> (Inl e, tr1)
      | (Inr access_keys, tr1) \<Rightarrow>
          (case fetch_key_descriptions w self (UserName u) access_keys tr1 of
             (Inl e, tr2) \<Rightarrow> (Inl e, tr2)
           | (Inr ks, tr2) \<Rightarrow>
               (case fetch_users w self users tr2 of
                  (Inl e, tr3) \<Rightarrow> (Inl e, tr3)
                | (Inr us, tr3) \<Rightarrow> (Inr ((UserName u, ks) # us), tr3))))"

definition fetch_report_data ::
  "world \<Rightarrow> AWSOrganization \<Rightarrow> account list \<Rightarrow> client \<Rightarrow> event list
     \<Rightarrow> ((account \<times> string) list \<times> (string \<times> (string \<times> string) list) list) result" where
  "fetch_report_data w self accounts org_client tr =
     (case fetch_descriptions w org_client
             (sort_key (\<lambda>x. dt_key (JoinedTimestamp x)) accounts) tr of
        (Inl e, tr1) \<Rightarrow> (Inl e, tr1)
      | (Inr ds, tr1) \<Rightarrow>
          (case list_iam_users w self tr1 of
             (Inl e, tr2) \<Rightarrow> (Inl e, tr2)
           | (Inr users, tr2) \<Rightarrow>
               (case fetch_users w self users tr2 of
                  (Inl e, tr3) \<Rightarrow> (Inl e, tr3)
                | (Inr us, tr3) \<Rightarrow>
                    (Inr (zip (sort_key (\<lambda>x. dt_key (JoinedTimestamp x)) accounts) ds, us),
                     tr3))))"

text \<open>The rows of one user: one row without keys, one row per key otherwise.\<close>

definition user_rows :: "string \<times> (string \<times> string) list \<Rightarrow> string" where
  "user_rows u =
     (if snd u = [] then no_key_row (fst u)
      else concat (map (\<lambda>k. key_row (fst u) (fst k) (snd k)) (snd u)))"

definition render ::
  "string \<Rightarrow> (account \<times> string) list \<Rightarrow> (string \<times> (string \<times> string) list) list \<Rightarrow> string" where
  "render label accounts users =
     page_header label
       @ concat (map (\<lambda>ad. account_row (fst ad) (snd ad))
                   (sort_key (\<lambda>ad. dt_key (JoinedTimestamp (fst ad))) accounts))
       @ users_header
       @ concat (map user_rows users)"




text \<open>The exception an AWS request raises, if it raises one, when it is issued after the
  requests \<open>tr\<close>.\<close>

definition aws_raises :: "world \<Rightarrow> event list \<Rightarrow> client \<Rightarrow> aws_op \<Rightarrow> error option" where
  "aws_raises w tr cl op =
     (case op of
        ListAccounts \<Rightarrow> (case aws_list_accounts w tr cl of Inl e \<Rightarrow> Some e | Inr _ \<Rightarrow> None)
      | ListTagsForResource a \<Rightarrow>
          (case aws_list_tags_for_resource w tr cl a of Inl e \<Rightarrow> Some e | Inr _ \<Rightarrow> None)
      | ListUsers \<Rightarrow> (case aws_list_users w tr cl of Inl e \<Rightarrow> Some e | Inr _ \<Rightarrow> None)
      | ListAccessKeys u \<Rightarrow>
          (case aws_list_access_keys w tr cl u of Inl e \<Rightarrow> Some e | Inr _ \<Rightarrow> None)
      | ListUserTags u \<Rightarrow>
          (case aws_list_user_tags w tr cl u of Inl e \<Rightarrow> Some e | Inr _ \<Rightarrow> None))"

text \<open>The credentials a request was issued with.\<close>

fun issued_with :: "json \<Rightarrow> json \<Rightarrow> event \<Rightarrow> bool" where
  "issued_with k s (AwsCall (Client svc k' s') op) = (k' = k \<and> s' = s)"
| "issued_with k s _ = False"

text \<open>What a call raised, if it raised, and the requests issued when it ended.\<close>

definition outcome :: "'a result \<Rightarrow> error option \<times> event list" where
  "outcome res = (case fst res of Inl e \<Rightarrow> Some e | Inr _ \<Rightarrow> None, snd res)"

text \<open>A call that started after the requests \<open>tr\<close> issued only AWS requests with the
  credentials \<open>k\<close>, \<open>s\<close>, and if it raised, it raised what its last request raised.\<close>

definition aws_only ::
  "world \<Rightarrow> json \<Rightarrow> json \<Rightarrow> event list \<Rightarrow> error option \<times> event list \<Rightarrow> bool" where
  "aws_only w k s tr res =
     (\<exists>ext. snd res = tr @ ext \<and> list_all (issued_with k s) ext
        \<and> (case fst res of
              None \<Rightarrow> True
            | Some e \<Rightarrow> ext \<noteq> [] \<and> (\<exists>cl op. last ext = AwsCall cl op
                         \<and> aws_raises w (tr @ butlast ext) cl op = Some e)))"

text \<open>Two worlds give one credential pair the same data: every AWS request issued with
  it has the same answer in both, whatever was requested before.\<close>

definition same_answers :: "world \<Rightarrow> world \<Rightarrow> json \<Rightarrow> json \<Rightarrow> bool" where
  "same_answers w w' k s =
     (\<forall>h h' svc.
        aws_list_accounts w h (Client svc k s) = aws_list_accounts w' h' (Client svc k s)
      \<and> aws_list_users w h (Client svc k s) = aws_list_users w' h' (Client svc k s)
      \<and> (\<forall>x. aws_list_tags_for_resource w h (Client svc k s) x
                = aws_list_tags_for_resource w' h' (Client svc k s) x
            \<and> aws_list_access_keys w h (Client svc k s) x
                = aws_list_access_keys w' h' (Client svc k s) x
            \<and> aws_list_user_tags w h (Client svc k s) x
                = aws_list_user_tags w' h' (Client svc k s) x))"

text \<open>The documents a sequence of requests creates: title and body, in order.\<close>

fun created :: "event list \<Rightarrow> (json \<times> string) list" where
  "created [] = []"
| "created (CreateDocument p t b # evs) = (t, b) # created evs"
| "created (_ # evs) = created evs"

section \<open>A scenario\<close>

text \<open>
  Two organizations are configured. The first has two accounts, returned on two pages
  and out of order, and two users; the listing of accounts raises for the second. The
  parent document has two children.
\<close>

definition acct_a :: account where
  "acct_a = \<lparr>Id' = ''111'', Name = ''alpha'', Email = ''a@example.com'',
     JoinedTimestamp = \<lparr>year = 2021, month = 1, day = 10, hour = 8, minute = 30,
                         second = 0, microsecond = 0\<rparr>\<rparr>"

definition acct_b :: account where
  "acct_b = \<lparr>Id' = ''222'', Name = ''beta'', Email = ''b@example.com'',
     JoinedTimestamp = \<lparr>year = 2023, month = 5, day = 1, hour = 17, minute = 0,
                         second = 0, microsecond = 0\<rparr>\<rparr>"

definition creds_text :: string where
  \<open>creds_text = ''{"accounts": [{"name": "prod", "access_key": "AK1", "secret_key": "S1"}, {"name": "dev", "access_key": "AK2", "secret_key": "S2"}]}''\<close>

definition creds_prod :: json where
  "creds_prod = JObject [(''name'', JString ''prod''), (''access_key'', JString ''AK1''),
                         (''secret_key'', JString ''S1'')]"

definition creds_dev :: json where
  "creds_dev = JObject [(''name'', JString ''dev''), (''access_key'', JString ''AK2''),
                        (''secret_key'', JString ''S2'')]"

definition tags_a :: "tag list" where
  "tags_a = [\<lparr>Key = ''description'', Value = ''lower case''\<rparr>,
             \<lparr>Key = ''Description'', Value = ''Prod''\<rparr>,
             \<lparr>Key = ''Description'', Value = ''Other''\<rparr>]"

definition tags_alice :: "tag list" where
  "tags_alice = [\<lparr>Key = ''description'', Value = ''ci''\<rparr>,
                 \<lparr>Key = ''Description'', Value = ''upper case''\<rparr>,
                 \<lparr>Key = ''description'', Value = ''cd''\<rparr>]"

definition scenario :: world where
  "scenario = \<lparr>
     outline_get_document_uuid = (\<lambda>tr oc. Inr ''parent-1''),
     outline_get_children = (\<lambda>tr oc p. Inr [''old-1'', ''old-2'']),
     outline_delete_document = (\<lambda>tr oc d. Inr ()),
     outline_create_document = (\<lambda>tr oc p t b. Inr ()),
     aws_list_accounts = (\<lambda>tr c. case c of Client svc k s \<Rightarrow>
        if k = JString ''AK1'' then Inr [[acct_b], [acct_a]]
        else Inl (ExternalError ''AccessDenied'')),
     aws_list_tags_for_resource = (\<lambda>tr c a. if a = ''111'' then Inr tags_a else Inr []),
     aws_list_users = (\<lambda>tr c. Inr [[\<lparr>UserName = ''alice''\<rparr>], [\<lparr>UserName = ''bob''\<rparr>]]),
     aws_list_access_keys = (\<lambda>tr c u.
        if u = ''alice'' then Inr [\<lparr>AccessKeyId = ''AKIA1''\<rparr>, \<lparr>AccessKeyId = ''AKIA2''\<rparr>]
        else Inr []),
     aws_list_user_tags = (\<lambda>tr c u. if u = ''alice'' then Inr tags_alice else Inr []),
     json_loads = (\<lambda>s.
        if s = creds_text then Some (JObject [(''accounts'', JArray [creds_prod, creds_dev])])
        else if s = ''{}'' then Some (JObject [])
        else if s = ''[]'' then Some (JArray [])
        else None),
     py_str = (\<lambda>v. ''?'')\<rparr>"

definition scenario_cfg :: config where
  "scenario_cfg = \<lparr>GETOUTLINE_DOCUMENT_ID = ''doc'', GETOUTLINE_API_TOKEN = ''token''\<rparr>"

text \<open>The same scenario with a document store that cannot resolve the parent document.\<close>

definition scenario_unresolved :: world where
  "scenario_unresolved =
     scenario\<lparr>outline_get_document_uuid := (\<lambda>tr oc. Inl (ExternalError ''404''))\<rparr>"

definition scenario_environ :: "string \<rightharpoonup> string" where
  "scenario_environ = [''AWS_CREDENTIALS_JSON'' \<mapsto> creds_text]"


definition prod_client :: client where
  "prod_client = Client ''organizations'' (JString ''AK1'') (JString ''S1'')"


definition scenario_report :: string where
  "scenario_report =
     page_header ''prod''
       @ account_row acct_a ''Prod'' @ account_row acct_b ''No Description''
       @ users_header
       @ key_row ''alice'' ''AKIA1'' ''cd'' @ key_row ''alice'' ''AKIA2'' ''cd''
       @ no_key_row ''bob''"

text \<open>The requests of the scenario's run: the purge, the requests of
  \<^verbatim>\<open>create_markdown\<close> for the first organization, and the whole run.\<close>

definition purge_requests :: "event list" where
  "purge_requests =
     [GetDocumentUuid, GetChildren ''parent-1'', DeleteDocument ''old-1'', DeleteDocument ''old-2'']"

definition report_requests :: "event list" where
  "report_requests =
     [AwsCall prod_client (ListTagsForResource ''111''),
      AwsCall prod_client (ListTagsForResource ''222''),
      AwsCall (Client ''iam'' (JString ''AK1'') (JString ''S1'')) ListUsers,
      AwsCall (Client ''iam'' (JString ''AK1'') (JString ''S1'')) (ListAccessKeys ''alice''),
      AwsCall (Client ''iam'' (JString ''AK1'') (JString ''S1'')) (ListUserTags ''alice''),
      AwsCall (Client ''iam'' (JString ''AK1'') (JString ''S1'')) (ListUserTags ''alice''),
      AwsCall (Client ''iam'' (JString ''AK1'') (JString ''S1'')) (ListAccessKeys ''bob'')]"

definition prod_published :: "event list" where
  "prod_published =
     purge_requests @ [AwsCall prod_client ListAccounts] @ report_requests
       @ [CreateDocument ''parent-1'' (JString ''prod'') scenario_report]"

definition scenario_requests :: "event list" where
  "scenario_requests =
     prod_published
       @ [AwsCall (Client ''organizations'' (JString ''AK2'') (JString ''S2'')) ListAccounts]"

text \<open>Another world: it gives the first organization the same data, but its document
  store refuses to create documents and the second organization has an account.\<close>

definition scenario_other :: world where
  "scenario_other =
     scenario\<lparr>outline_create_document := (\<lambda>tr oc p t b. Inl (ExternalError ''500'')),
              aws_list_accounts := (\<lambda>tr c. case c of Client svc k s \<Rightarrow>
                 if k = JString ''AK1'' then Inr [[acct_b], [acct_a]] else Inr [[acct_a]])\<rparr>"

section \<open>The two description lookups\<close>

lemma get_account_tags_loop_find:
  "get_account_tags_loop tags =
     (case find (\<lambda>t. Key t = ''Description'') tags of
        None \<Rightarrow> ''No Description'' | Some t \<Rightarrow> Value t)"
  by (induction tags) simp_all



text \<open>
  C3. \<^verbatim>\<open>get_account_tags\<close> answers with the value of the first tag whose key is exactly
  \<^verbatim>\<open>Description\<close>, and with the text \<^verbatim>\<open>No Description\<close> when the account's tags hold no
  such key; a key in another case does not count.
\<close>

theorem account_description_lookup:
  assumes "aws_list_tags_for_resource w tr org_client account_id = Inr tags"
  shows "fst (get_account_tags w org_client account_id tr) =
           Inr (case find (\<lambda>t. Key t = ''Description'') tags of
                  None \<Rightarrow> ''No Description'' | Some t \<Rightarrow> Value t)
       \<and> ((\<forall>t\<in>set tags. Key t \<noteq> ''Description'') \<longrightarrow>
             fst (get_account_tags w org_client account_id tr) = Inr ''No Description'')"
proof -
  have r: "fst (get_account_tags w org_client account_id tr) = Inr (get_account_tags_loop tags)"
    using assms by (simp add: get_account_tags_def)
  have "(\<forall>t\<in>set tags. Key t \<noteq> ''Description'') \<Longrightarrow> get_account_tags_loop tags = ''No Description''"
    by (induction tags) simp_all
  with r show ?thesis by (simp add: get_account_tags_loop_find)
qed

theorem account_description_lookup_witness:
  "fst (get_account_tags scenario (Client ''organizations'' (JString ''AK1'') (JString ''S1'')) ''111'' []) = Inr ''Prod''
   \<and> fst (get_account_tags scenario (Client ''organizations'' (JString ''AK1'') (JString ''S1'')) ''222'' []) = Inr ''No Description''
   \<and> fst (get_account_tags
            (scenario\<lparr>aws_list_tags_for_resource := (\<lambda>tr c a. Inr [\<lparr>Key = ''description'', Value = ''lower case''\<rparr>])\<rparr>)
            (Client ''organizations'' (JString ''AK1'') (JString ''S1'')) ''111'' []) = Inr ''No Description''"
proof -
  let ?c = "Client ''organizations'' (JString ''AK1'') (JString ''S1'')"
  have a: "aws_list_tags_for_resource scenario [] ?c ''111'' = Inr tags_a"
    by (simp add: scenario_def)
  have b: "aws_list_tags_for_resource scenario [] ?c ''222'' = Inr []"
    by (simp add: scenario_def)
  have c: "aws_list_tags_for_resource
             (scenario\<lparr>aws_list_tags_for_resource := (\<lambda>tr c a. Inr [\<lparr>Key = ''description'', Value = ''lower case''\<rparr>])\<rparr>)
             [] ?c ''111'' = Inr [\<lparr>Key = ''description'', Value = ''lower case''\<rparr>]"
    by simp
  show ?thesis
    using account_description_lookup [OF a] account_description_lookup [OF b]
      account_description_lookup [OF c]
    by (simp add: tags_a_def)
qed



section \<open>Loading the credentials\<close>

text \<open>
  C6. \<^verbatim>\<open>get_credentials\<close> raises when the variable is not set, when it is empty, when
  its text is not JSON, and when the parsed value has no key \<^verbatim>\<open>accounts\<close> (a
  \<^verbatim>\<open>dict\<close> without the key, or a value that is no \<^verbatim>\<open>dict\<close>); otherwise it returns
  the value under that key. The exceptions are Python's \<^verbatim>\<open>EnvironmentError\<close>,
  \<^verbatim>\<open>ValueError\<close>, \<^verbatim>\<open>KeyError\<close> and \<^verbatim>\<open>TypeError\<close>: the configuration errors of
  this program.
\<close>

theorem get_credentials_cases:
  "(environ ''AWS_CREDENTIALS_JSON'' = None \<longrightarrow>
      get_credentials w environ =
        Inl (EnvironmentError ''AWS_CREDENTIALS_JSON environment variable not set.''))
 \<and> (environ ''AWS_CREDENTIALS_JSON'' = Some [] \<longrightarrow>
      get_credentials w environ =
        Inl (EnvironmentError ''AWS_CREDENTIALS_JSON environment variable not set.''))
 \<and> (environ ''AWS_CREDENTIALS_JSON'' = Some blob \<and> blob \<noteq> [] \<and> json_loads w blob = None \<longrightarrow>
      get_credentials w environ = Inl (ValueError ''Invalid JSON in AWS_CREDENTIALS_JSON.''))
 \<and> (environ ''AWS_CREDENTIALS_JSON'' = Some blob \<and> blob \<noteq> []
      \<and> json_loads w blob = Some (JObject kvs) \<and> ''accounts'' \<notin> fst ` set kvs \<longrightarrow>
      get_credentials w environ = Inl (KeyError ''accounts''))
 \<and> (environ ''AWS_CREDENTIALS_JSON'' = Some blob \<and> blob \<noteq> []
      \<and> json_loads w blob = Some j \<and> (\<forall>kvs'. j \<noteq> JObject kvs') \<longrightarrow>
      get_credentials w environ = Inl TypeError)
 \<and> (environ ''AWS_CREDENTIALS_JSON'' = Some blob \<and> blob \<noteq> []
      \<and> json_loads w blob = Some (JObject kvs) \<and> map_of kvs ''accounts'' = Some v \<longrightarrow>
      get_credentials w environ = Inr v)"
proof -
  have "(\<forall>kvs'. j \<noteq> JObject kvs') \<Longrightarrow> subscript j ''accounts'' = Inl TypeError"
    by (cases j) simp_all
  moreover have "''accounts'' \<notin> fst ` set kvs \<Longrightarrow> map_of kvs ''accounts'' = None"
    by (simp add: map_of_eq_None_iff)
  ultimately show ?thesis
    by (simp add: get_credentials_def)
qed

theorem get_credentials_cases_witness:
  "get_credentials scenario Map.empty =
     Inl (EnvironmentError ''AWS_CREDENTIALS_JSON environment variable not set.'')
 \<and> get_credentials scenario [''AWS_CREDENTIALS_JSON'' \<mapsto> ''''] =
     Inl (EnvironmentError ''AWS_CREDENTIALS_JSON environment variable not set.'')
 \<and> get_credentials scenario [''AWS_CREDENTIALS_JSON'' \<mapsto> ''{accounts''] =
     Inl (ValueError ''Invalid JSON in AWS_CREDENTIALS_JSON.'')
 \<and> get_credentials scenario [''AWS_CREDENTIALS_JSON'' \<mapsto> ''{}''] = Inl (KeyError ''accounts'')
 \<and> get_credentials scenario [''AWS_CREDENTIALS_JSON'' \<mapsto> ''[]''] = Inl TypeError
 \<and> get_credentials scenario [''AWS_CREDENTIALS_JSON'' \<mapsto> creds_text] =
     Inr (JArray [creds_prod, creds_dev])"
proof -
  have l1: "json_loads scenario ''{accounts'' = None"
    by (simp add: scenario_def creds_text_def)
  have l2: "json_loads scenario ''{}'' = Some (JObject [])"
    by (simp add: scenario_def creds_text_def)
  have l3: "json_loads scenario ''[]'' = Some (JArray [])"
    by (simp add: scenario_def creds_text_def)
  have l4: "json_loads scenario creds_text = Some (JObject [(''accounts'', JArray [creds_prod, creds_dev])])"
    by (simp add: scenario_def)
  have n: "creds_text \<noteq> []"
    by (simp add: creds_text_def)
  show ?thesis
    using get_credentials_cases [where environ = Map.empty and w = scenario]
      get_credentials_cases [where environ = "[''AWS_CREDENTIALS_JSON'' \<mapsto> '''']"
         and w = scenario]
      get_credentials_cases [where environ = "[''AWS_CREDENTIALS_JSON'' \<mapsto> ''{accounts'']"
         and blob = "''{accounts''" and w = scenario]
      get_credentials_cases [where environ = "[''AWS_CREDENTIALS_JSON'' \<mapsto> ''{}'']"
         and blob = "''{}''" and w = scenario and kvs = "[]"]
      get_credentials_cases [where environ = "[''AWS_CREDENTIALS_JSON'' \<mapsto> ''[]'']"
         and blob = "''[]''" and w = scenario and j = "JArray []"]
      get_credentials_cases [where environ = "[''AWS_CREDENTIALS_JSON'' \<mapsto> creds_text]"
         and blob = creds_text and w = scenario
         and kvs = "[(''accounts'', JArray [creds_prod, creds_dev])]"
         and v = "JArray [creds_prod, creds_dev]"]
      l1 l2 l3 l4 n
    by simp
qed

section \<open>The run\<close>

text \<open>
  C7. When resolving the parent document raises, \<^verbatim>\<open>main\<close> raises that exception
  and the only request of the run is the one that failed: no AWS request, no deletion,
  no creation.
\<close>

theorem unresolved_parent_aborts:
  assumes "outline_get_document_uuid w [] (GetOutlineClient cfg) = Inl e"
  shows "main w cfg environ = (Inl e, [GetDocumentUuid])"
  using assms by (simp add: main_def get_document_uuid_def)

theorem unresolved_parent_aborts_witness:
  "main scenario_unresolved scenario_cfg [''AWS_CREDENTIALS_JSON'' \<mapsto> creds_text] =
     (Inl (ExternalError ''404''), [GetDocumentUuid])"
proof -
  have "outline_get_document_uuid scenario_unresolved [] (GetOutlineClient scenario_cfg) =
          Inl (ExternalError ''404'')"
    by (simp add: scenario_unresolved_def)
  then show ?thesis
    by (rule unresolved_parent_aborts)
qed

section \<open>The scenario, evaluated\<close>

text \<open>What the code computes in the scenario, by evaluation of the definitions.\<close>

lemma scenario_run:
  "main scenario scenario_cfg scenario_environ = (Inl (ExternalError ''AccessDenied''), scenario_requests)"
  by code_simp

lemma scenario_purge:
  "delete_loop scenario (GetOutlineClient scenario_cfg) [''old-1'', ''old-2'']
     [GetDocumentUuid, GetChildren ''parent-1''] = (Inr (), purge_requests)"
  by code_simp

lemma scenario_prod:
  "process_creds scenario (GetOutlineClient scenario_cfg) ''parent-1'' creds_prod ([], []) purge_requests
     = (Inr ([acct_b, acct_a], scenario_report), prod_published)"
  by code_simp

lemma scenario_dev:
  "process_creds scenario (GetOutlineClient scenario_cfg) ''parent-1'' creds_dev
     ([acct_b, acct_a], scenario_report) prod_published
     = (Inl (ExternalError ''AccessDenied''), scenario_requests)"
  by code_simp





lemma scenario_report_text:
  "scenario_report = ''> This page is automatically generated. Any manual changes will be lost. See: https://github.com/GlueOps/getoutline-docs-update-aws-organizations \<newline>\<newline># AWS ROOT Organization Details for prod\<newline>\<newline>| AWS Account ID | Account Name | Description | Account Email | Created Date |\<newline>|----------------|--------------|-------------|---------------|--------------|\<newline>| 111 | alpha | Prod | a@example.com | 2021-01-10 |\<newline>| 222 | beta | No Description | b@example.com | 2023-05-01 |\<newline>\<newline>\<newline>| IAM User Name | Access Key ID | Description |\<newline>|---------------|---------------|-------------|\<newline>| alice | AKIA1 | cd |\<newline>| alice | AKIA2 | cd |\<newline>| bob | No Access Key | No Description |\<newline>''"
  by code_simp


lemma same_answers_scenario: "same_answers scenario scenario_other (JString ''AK1'') (JString ''S1'')"
  by (simp add: same_answers_def scenario_def scenario_other_def)

section \<open>The requests of a run\<close>

text \<open>
  Every function of \<^verbatim>\<open>aws.py\<close> issues AWS requests only, with the credentials of its
  organization, and the exception it raises is the one its last request raised.
\<close>

lemma outcome_simps [simp]:
  "outcome (Inl e, tr) = (Some e, tr)" "outcome (Inr x, tr) = (None, tr)"
  by (simp_all add: outcome_def)

lemma aws_only_return: "aws_only w k s tr (None, tr)"
  by (simp add: aws_only_def)

lemma aws_only_trans:
  assumes "aws_only w k s tr (None, tr1)" and "aws_only w k s tr1 res"
  shows "aws_only w k s tr res"
proof -
  from assms(1) obtain ext1 where e1: "tr1 = tr @ ext1" "list_all (issued_with k s) ext1"
    by (auto simp: aws_only_def)
  from assms(2) obtain ext2 where e2: "snd res = tr1 @ ext2" "list_all (issued_with k s) ext2"
    and f: "case fst res of None \<Rightarrow> True
            | Some e \<Rightarrow> ext2 \<noteq> [] \<and> (\<exists>cl op. last ext2 = AwsCall cl op
                         \<and> aws_raises w (tr1 @ butlast ext2) cl op = Some e)"
    by (auto simp: aws_only_def)
  have "snd res = tr @ (ext1 @ ext2)" "list_all (issued_with k s) (ext1 @ ext2)"
    using e1 e2 by simp_all
  moreover have "case fst res of None \<Rightarrow> True
            | Some e \<Rightarrow> ext1 @ ext2 \<noteq> [] \<and> (\<exists>cl op. last (ext1 @ ext2) = AwsCall cl op
                         \<and> aws_raises w (tr @ butlast (ext1 @ ext2)) cl op = Some e)"
    using f e1 by (auto split: option.splits simp: butlast_append)
  ultimately show ?thesis
    unfolding aws_only_def by blast
qed

lemma get_aws_accounts_aws_only:
  "aws_only w k s tr (outcome (get_aws_accounts w (Client svc k s) tr))"
  by (auto simp: aws_only_def get_aws_accounts_def aws_raises_def split: sum.splits)

lemma get_account_tags_aws_only:
  "aws_only w k s tr (outcome (get_account_tags w (Client svc k s) a tr))"
  by (auto simp: aws_only_def get_account_tags_def aws_raises_def split: sum.splits)

lemma list_iam_users_aws_only:
  "aws_only w (aws_access_key_id self) (aws_secret_access_key self) tr
     (outcome (list_iam_users w self tr))"
  by (auto simp: aws_only_def list_iam_users_def get_aws_client_def aws_raises_def Let_def
        split: sum.splits)

lemma get_user_access_keys_aws_only:
  "aws_only w (aws_access_key_id self) (aws_secret_access_key self) tr
     (outcome (get_user_access_keys w self u tr))"
  by (auto simp: aws_only_def get_user_access_keys_def get_aws_client_def aws_raises_def Let_def
        split: sum.splits)

lemma list_user_tags_aws_only:
  "aws_only w (aws_access_key_id self) (aws_secret_access_key self) tr
     (outcome (aws_list_user_tags w tr (get_aws_client self ''iam'') u,
               tr @ [AwsCall (get_aws_client self ''iam'') (ListUserTags u)]))"
  by (auto simp: aws_only_def outcome_def get_aws_client_def aws_raises_def split: sum.splits)

lemma accounts_loop_aws_only:
  "aws_only w k s tr (outcome (accounts_loop w (Client svc k s) accounts md tr))"
proof (induction accounts arbitrary: md tr)
  case Nil
  show ?case by (simp add: aws_only_return)
next
  case (Cons a accounts)
  obtain r tr1 where g: "get_account_tags w (Client svc k s) (Id' a) tr = (r, tr1)"
    by (cases "get_account_tags w (Client svc k s) (Id' a) tr")
  have a1: "aws_only w k s tr (outcome (r, tr1))"
    using get_account_tags_aws_only [of w k s tr svc "Id' a"] g by simp
  show ?case
  proof (cases r)
    case (Inl e)
    then show ?thesis using g a1 by simp
  next
    case (Inr d)
    then show ?thesis
      using g a1 Cons.IH [of tr1 "md @ account_row a d"]
      by (auto intro: aws_only_trans)
  qed
qed

lemma access_keys_loop_aws_only:
  "aws_only w (aws_access_key_id self) (aws_secret_access_key self) tr
     (outcome (access_keys_loop w self u keys md tr))"
proof (induction keys arbitrary: md tr)
  case Nil
  show ?case by (simp add: aws_only_return)
next
  case (Cons key keys)
  let ?tr1 = "tr @ [AwsCall (get_aws_client self ''iam'') (ListUserTags u)]"
  have a1: "aws_only w (aws_access_key_id self) (aws_secret_access_key self) tr
              (outcome (aws_list_user_tags w tr (get_aws_client self ''iam'') u, ?tr1))"
    by (rule list_user_tags_aws_only)
  show ?case
  proof (cases "aws_list_user_tags w tr (get_aws_client self ''iam'') u")
    case (Inl e)
    then show ?thesis using a1 by simp
  next
    case (Inr tags)
    then show ?thesis
      using a1 Cons.IH [of ?tr1]
      by (auto intro: aws_only_trans)
  qed
qed

lemma users_loop_aws_only:
  "aws_only w (aws_access_key_id self) (aws_secret_access_key self) tr
     (outcome (users_loop w self users md tr))"
proof (induction users arbitrary: md tr)
  case Nil
  show ?case by (simp add: aws_only_return)
next
  case (Cons u users)
  let ?k = "aws_access_key_id self" and ?s = "aws_secret_access_key self"
  obtain r tr1 where g: "get_user_access_keys w self (UserName u) tr = (r, tr1)"
    by (cases "get_user_access_keys w self (UserName u) tr")
  have a1: "aws_only w ?k ?s tr (outcome (r, tr1))"
    using get_user_access_keys_aws_only [of w self tr "UserName u"] g by simp
  show ?case
  proof (cases r)
    case (Inl e)
    then show ?thesis using g a1 by simp
  next
    case (Inr keys)
    note keys = this
    show ?thesis
    proof (cases "keys = []")
      case True
      then show ?thesis
        using g keys a1 Cons.IH [of tr1] by (auto intro: aws_only_trans)
    next
      case False
      obtain r2 tr2 where l: "access_keys_loop w self (UserName u) keys md tr1 = (r2, tr2)"
        by (cases "access_keys_loop w self (UserName u) keys md tr1")
      have a2: "aws_only w ?k ?s tr1 (outcome (r2, tr2))"
        using access_keys_loop_aws_only [of w self tr1 "UserName u" keys md] l by simp
      have a12: "aws_only w ?k ?s tr (outcome (r2, tr2))"
        using a1 a2 keys by (auto intro: aws_only_trans)
      show ?thesis
      proof (cases r2)
        case (Inl e)
        then show ?thesis using g keys False l a12 by simp
      next
        case (Inr md')
        then show ?thesis
          using g keys False l a12 Cons.IH [of tr2 md'] by (auto intro: aws_only_trans)
      qed
    qed
  qed
qed

lemma create_markdown_aws_only:
  assumes "aws_access_key_id self = k" and "aws_secret_access_key self = s"
  shows "aws_only w k s tr (outcome (create_markdown w self accounts (Client svc k s) tr))"
proof -
  let ?sorted = "sort_key (\<lambda>x. dt_key (JoinedTimestamp x)) accounts"
  let ?hd = "page_header (py_format w (aws_account_name self))"
  obtain r1 tr1 where l1: "accounts_loop w (Client svc k s) ?sorted ?hd tr = (r1, tr1)"
    by (cases "accounts_loop w (Client svc k s) ?sorted ?hd tr")
  have a1: "aws_only w k s tr (outcome (r1, tr1))"
    using accounts_loop_aws_only [of w k s tr svc ?sorted ?hd] l1 by simp
  show ?thesis
  proof (cases r1)
    case (Inl e)
    then show ?thesis using l1 a1 by (simp add: create_markdown_def)
  next
    case (Inr md)
    note md = this
    obtain r2 tr2 where l2: "list_iam_users w self tr1 = (r2, tr2)"
      by (cases "list_iam_users w self tr1")
    have a2: "aws_only w k s tr (outcome (r2, tr2))"
      using list_iam_users_aws_only [of w self tr1] l2 a1 md assms
      by (auto intro: aws_only_trans)
    show ?thesis
    proof (cases r2)
      case (Inl e)
      then show ?thesis using l1 md l2 a2 by (simp add: create_markdown_def)
    next
      case (Inr users)
      then show ?thesis
        using l1 md l2 a2 users_loop_aws_only [of w self tr2 users "md @ users_header"] assms
        by (auto simp add: create_markdown_def intro: aws_only_trans)
    qed
  qed
qed

lemma process_creds_cases:
  assumes "process_creds w oc pid c vars tr = (r, tr')"
  shows "(tr' = tr \<and> (\<exists>e. r = Inl e))
       \<or> (\<exists>name k s. subscript c ''name'' = Inr name \<and> subscript c ''access_key'' = Inr k
             \<and> subscript c ''secret_key'' = Inr s
             \<and> ((\<exists>e. r = Inl e \<and> aws_only w k s tr (Some e, tr'))
                \<or> (\<exists>tr2 body. aws_only w k s tr (None, tr2)
                      \<and> tr' = tr2 @ [CreateDocument pid name body]
                      \<and> (case r of
                            Inl e \<Rightarrow> outline_create_document w tr2 oc pid name body = Inl e
                          | Inr vars' \<Rightarrow> outline_create_document w tr2 oc pid name body = Inr ()
                                         \<and> snd vars' = body))))"
proof (cases "subscript c ''name''")
  case (Inl e)
  then show ?thesis using assms by (auto simp add: process_creds_def)
next
  case (Inr name)
  note name = this
  show ?thesis
  proof (cases "subscript c ''access_key''")
    case (Inl e)
    then show ?thesis using assms name by (auto simp add: process_creds_def)
  next
    case (Inr k)
    note k = this
    show ?thesis
    proof (cases "subscript c ''secret_key''")
      case (Inl e)
      then show ?thesis using assms name k by (auto simp add: process_creds_def)
    next
      case (Inr s)
      note s = this
      let ?org = "\<lparr>aws_account_name = name, aws_access_key_id = k, aws_secret_access_key = s\<rparr>"
      let ?cl = "Client ''organizations'' k s"
      obtain r1 tr1 where g: "get_aws_accounts w ?cl tr = (r1, tr1)"
        by (cases "get_aws_accounts w ?cl tr")
      have a1: "aws_only w k s tr (outcome (r1, tr1))"
        using get_aws_accounts_aws_only [of w k s tr "''organizations''"] g by simp
      show ?thesis
      proof (cases r1)
        case (Inl e)
        then have "r = Inl e" "tr' = tr1"
          using assms name k s g by (simp_all add: process_creds_def get_aws_client_def)
        then show ?thesis using a1 Inl name k s by simp
      next
        case (Inr accounts)
        note accounts = this
        obtain r2 tr2 where m: "create_markdown w ?org accounts ?cl tr1 = (r2, tr2)"
          by (cases "create_markdown w ?org accounts ?cl tr1")
        have "aws_only w k s tr1 (outcome (r2, tr2))"
          using create_markdown_aws_only [of ?org k s w tr1 accounts "''organizations''"] m
          by simp
        then have a2: "aws_only w k s tr (outcome (r2, tr2))"
          using a1 accounts by (auto intro: aws_only_trans)
        show ?thesis
        proof (cases r2)
          case (Inl e)
          then have "r = Inl e" "tr' = tr2"
            using assms name k s g accounts m
            by (simp_all add: process_creds_def get_aws_client_def)
          then show ?thesis using a2 Inl name k s by simp
        next
          case (Inr body)
          then have "tr' = tr2 @ [CreateDocument pid name body]"
            and "case r of
                   Inl e \<Rightarrow> outline_create_document w tr2 oc pid name body = Inl e
                 | Inr vars' \<Rightarrow> outline_create_document w tr2 oc pid name body = Inr ()
                                \<and> snd vars' = body"
            using assms name k s g accounts m
            by (auto simp add: process_creds_def get_aws_client_def create_document_def
                  split: sum.splits)
          then show ?thesis using a2 Inr name k s by auto
        qed
      qed
    qed
  qed
qed

lemma issued_with_AwsCall: "issued_with k s ev \<Longrightarrow> \<exists>cl op. ev = AwsCall cl op"
  by (cases "(k, s, ev)" rule: issued_with.cases) simp_all

lemma aws_only_events:
  assumes "aws_only w k s tr (err, tr')"
  shows "\<exists>ext. tr' = tr @ ext \<and> (\<forall>ev\<in>set ext. \<exists>cl op. ev = AwsCall cl op)"
proof -
  from assms obtain ext where "tr' = tr @ ext" "list_all (issued_with k s) ext"
    by (auto simp: aws_only_def)
  moreover from this have "\<forall>ev\<in>set ext. \<exists>cl op. ev = AwsCall cl op"
    using issued_with_AwsCall by (auto simp: list_all_iff)
  ultimately show ?thesis by blast
qed

lemma delete_loop_ok:
  "delete_loop w oc ids tr = (Inr u, tr') \<Longrightarrow>
     tr' = tr @ map DeleteDocument ids
     \<and> (\<forall>j<length ids.
           outline_delete_document w (tr @ map DeleteDocument (take j ids)) oc (ids ! j) = Inr ())"
proof (induction ids arbitrary: tr)
  case Nil
  then show ?case by simp
next
  case (Cons i ids)
  from Cons.prems have d: "outline_delete_document w tr oc i = Inr ()"
    and rest: "delete_loop w oc ids (tr @ [DeleteDocument i]) = (Inr u, tr')"
    by (auto simp: delete_document_def split: sum.splits)
  from Cons.IH [OF rest] have t: "tr' = tr @ map DeleteDocument (i # ids)"
    and a: "\<forall>j<length ids. outline_delete_document w
              ((tr @ [DeleteDocument i]) @ map DeleteDocument (take j ids)) oc (ids ! j) = Inr ()"
    by simp_all
  have "outline_delete_document w (tr @ map DeleteDocument (take j (i # ids))) oc ((i # ids) ! j)
          = Inr ()" if "j < length (i # ids)" for j
  proof (cases j)
    case 0
    then show ?thesis using d by simp
  next
    case (Suc j')
    then show ?thesis using a that by simp
  qed
  with t show ?case by blast
qed

lemma delete_loop_fail:
  "delete_loop w oc ids tr = (Inl e, tr') \<Longrightarrow> \<exists>n. tr' = tr @ map DeleteDocument (take n ids)"
proof (induction ids arbitrary: tr)
  case Nil
  then show ?case by simp
next
  case (Cons i ids)
  show ?case
  proof (cases "outline_delete_document w tr oc i")
    case (Inl e')
    then have "tr' = tr @ map DeleteDocument (take 1 (i # ids))"
      using Cons.prems by (simp add: delete_document_def)
    then show ?thesis by blast
  next
    case (Inr u)
    then have "delete_loop w oc ids (tr @ [DeleteDocument i]) = (Inl e, tr')"
      using Cons.prems by (simp add: delete_document_def)
    from Cons.IH [OF this] obtain n where "tr' = (tr @ [DeleteDocument i]) @ map DeleteDocument (take n ids)"
      by blast
    then have "tr' = tr @ map DeleteDocument (take (Suc n) (i # ids))"
      by simp
    then show ?thesis by blast
  qed
qed

lemma process_creds_events:
  assumes "process_creds w oc pid c vars tr = (r, tr')"
  shows "\<exists>ext. tr' = tr @ ext
           \<and> (\<forall>ev\<in>set ext. (\<exists>cl op. ev = AwsCall cl op) \<or> (\<exists>t b. ev = CreateDocument pid t b))"
proof -
  from process_creds_cases [OF assms]
  consider "tr' = tr"
    | k s e where "aws_only w k s tr (Some e, tr')"
    | k s tr2 name body where "aws_only w k s tr (None, tr2)"
        "tr' = tr2 @ [CreateDocument pid name body]"
    by blast
  then show ?thesis
  proof cases
    case 1
    then show ?thesis by simp
  next
    case 2
    from aws_only_events [OF this] show ?thesis by blast
  next
    case 3
    from aws_only_events [OF 3(1)] obtain ext
      where "tr2 = tr @ ext" "\<forall>ev\<in>set ext. \<exists>cl op. ev = AwsCall cl op"
      by blast
    then have "tr' = tr @ (ext @ [CreateDocument pid name body])"
      and "\<forall>ev\<in>set (ext @ [CreateDocument pid name body]).
             (\<exists>cl op. ev = AwsCall cl op) \<or> (\<exists>t b. ev = CreateDocument pid t b)"
      using 3(2) by auto
    then show ?thesis by blast
  qed
qed

lemma creds_loop_events:
  "creds_loop w oc pid cs vars tr = (r, tr') \<Longrightarrow>
     \<exists>ext. tr' = tr @ ext
       \<and> (\<forall>ev\<in>set ext. (\<exists>cl op. ev = AwsCall cl op) \<or> (\<exists>t b. ev = CreateDocument pid t b))"
proof (induction cs arbitrary: vars tr)
  case Nil
  then show ?case by simp
next
  case (Cons c cs)
  obtain r1 tr1 where p: "process_creds w oc pid c vars tr = (r1, tr1)"
    by (cases "process_creds w oc pid c vars tr")
  from process_creds_events [OF p] obtain ext1 where e1: "tr1 = tr @ ext1"
    "\<forall>ev\<in>set ext1. (\<exists>cl op. ev = AwsCall cl op) \<or> (\<exists>t b. ev = CreateDocument pid t b)"
    by blast
  show ?case
  proof (cases r1)
    case (Inl e)
    then have "tr' = tr1" using Cons.prems p by simp
    then show ?thesis using e1 by blast
  next
    case (Inr vars1)
    then have "creds_loop w oc pid cs vars1 tr1 = (r, tr')"
      using Cons.prems p by simp
    from Cons.IH [OF this] obtain ext2 where e2: "tr' = tr1 @ ext2"
      "\<forall>ev\<in>set ext2. (\<exists>cl op. ev = AwsCall cl op) \<or> (\<exists>t b. ev = CreateDocument pid t b)"
      by blast
    have "tr' = tr @ (ext1 @ ext2)" using e1 e2 by simp
    moreover have "\<forall>ev\<in>set (ext1 @ ext2).
        (\<exists>cl op. ev = AwsCall cl op) \<or> (\<exists>t b. ev = CreateDocument pid t b)"
      using e1 e2 by auto
    ultimately show ?thesis by blast
  qed
qed

text \<open>
  C1. Whenever a run asks the document store to create a document, the run has resolved
  the parent document, listed its children and deleted every one of them, each deletion
  returning without an exception, before that request: the first requests of the run are
  the resolution,
  the listing and one deletion per child, in the order of the listing, and no creation
  stands among them. The document is created under the resolved parent.
\<close>

theorem purge_before_create:
  assumes run: "main w cfg environ = (r, tr)"
      and i: "i < length tr"
      and ev: "tr ! i = CreateDocument p title body"
  shows "\<exists>parent_id children.
           outline_get_document_uuid w [] (GetOutlineClient cfg) = Inr parent_id
         \<and> outline_get_children w [GetDocumentUuid] (GetOutlineClient cfg) parent_id = Inr children
         \<and> take (2 + length children) tr
             = [GetDocumentUuid, GetChildren parent_id] @ map DeleteDocument children
         \<and> (\<forall>j<length children.
               outline_delete_document w (take (2 + j) tr) (GetOutlineClient cfg) (children ! j)
                 = Inr ())
         \<and> 2 + length children \<le> i
         \<and> p = parent_id"
proof -
  let ?oc = "GetOutlineClient cfg"
  have nocreate: False if "tr = pre" "\<forall>ev\<in>set pre. \<forall>p t b. ev \<noteq> CreateDocument p t b" for pre
    using that i ev by (metis nth_mem)
  show ?thesis
  proof (cases "outline_get_document_uuid w [] ?oc")
    case (Inl e)
    then have "tr = [GetDocumentUuid]"
      using run by (simp add: main_def get_document_uuid_def)
    then show ?thesis using nocreate by simp
  next
    case (Inr parent_id)
    note pid = this
    show ?thesis
    proof (cases "outline_get_children w [GetDocumentUuid] ?oc parent_id")
      case (Inl e)
      then have "tr = [GetDocumentUuid, GetChildren parent_id]"
        using run pid
        by (simp add: main_def get_document_uuid_def get_children_documents_to_delete_def)
      then show ?thesis using nocreate by simp
    next
      case (Inr children)
      note children = this
      let ?tr2 = "[GetDocumentUuid, GetChildren parent_id]"
      obtain r3 tr3 where d: "delete_loop w ?oc children ?tr2 = (r3, tr3)"
        by (cases "delete_loop w ?oc children ?tr2")
      show ?thesis
      proof (cases r3)
        case (Inl e)
        then have "tr = tr3"
          using run pid children d
          by (simp add: main_def get_document_uuid_def get_children_documents_to_delete_def)
        moreover from delete_loop_fail d Inl obtain n
          where "tr3 = ?tr2 @ map DeleteDocument (take n children)"
          by blast
        ultimately have "tr = ?tr2 @ map DeleteDocument (take n children)"
          by simp
        then show ?thesis using nocreate by auto
      next
        case (Inr u)
        with d delete_loop_ok [of w ?oc children ?tr2 u tr3]
        have tr3: "tr3 = ?tr2 @ map DeleteDocument children"
          and del: "\<forall>j<length children. outline_delete_document w
                      (?tr2 @ map DeleteDocument (take j children)) ?oc (children ! j) = Inr ()"
          by simp_all
        have "\<exists>ext. tr = tr3 @ ext
                \<and> (\<forall>ev\<in>set ext. (\<exists>cl op. ev = AwsCall cl op)
                                   \<or> (\<exists>t b. ev = CreateDocument parent_id t b))"
        proof (cases "get_credentials w environ")
          case (Inl e)
          then have "tr = tr3"
            using run pid children d Inr
            by (simp add: main_def get_document_uuid_def get_children_documents_to_delete_def)
          then show ?thesis by simp
        next
          case (Inr accounts_creds)
          note ac = this
          show ?thesis
          proof (cases "py_iter accounts_creds")
            case (Inl e)
            then have "tr = tr3"
              using run pid children d \<open>r3 = Inr u\<close> ac
              by (simp add: main_def get_document_uuid_def get_children_documents_to_delete_def)
            then show ?thesis by simp
          next
            case (Inr creds_list)
            obtain r4 tr4 where l: "creds_loop w ?oc parent_id creds_list ([], []) tr3 = (r4, tr4)"
              by (cases "creds_loop w ?oc parent_id creds_list ([], []) tr3")
            then have "tr = tr4"
              using run pid children d \<open>r3 = Inr u\<close> ac Inr
              by (cases r4)
                (simp_all add: main_def get_document_uuid_def get_children_documents_to_delete_def)
            with creds_loop_events [OF l] show ?thesis by simp
          qed
        qed
        then obtain ext where ext: "tr = tr3 @ ext"
          "\<forall>ev\<in>set ext. (\<exists>cl op. ev = AwsCall cl op) \<or> (\<exists>t b. ev = CreateDocument parent_id t b)"
          by blast
        have len: "length tr3 = 2 + length children"
          using tr3 by simp
        have "\<not> i < length tr3"
        proof
          assume "i < length tr3"
          then have "tr ! i = tr3 ! i" using ext by (simp add: nth_append)
          moreover have "tr3 ! i \<in> set tr3" using \<open>i < length tr3\<close> by simp
          ultimately show False using ev tr3 by auto
        qed
        then have ge: "2 + length children \<le> i" using len by simp
        then have "tr ! i = ext ! (i - length tr3)" "i - length tr3 < length ext"
          using ext i len by (simp_all add: nth_append)
        then have "ext ! (i - length tr3) \<in> set ext" "ext ! (i - length tr3) = CreateDocument p title body"
          using ev by simp_all
        then have p: "p = parent_id" using ext(2) by auto
        have tk: "take (2 + length children) tr = ?tr2 @ map DeleteDocument children"
          using ext tr3 by simp
        have "take (2 + j) tr = ?tr2 @ map DeleteDocument (take j children)"
          if "j < length children" for j
          using that ext tr3 by (simp add: take_map)
        with del have "\<forall>j<length children.
            outline_delete_document w (take (2 + j) tr) ?oc (children ! j) = Inr ()"
          by simp
        with pid children tk ge p show ?thesis by blast
      qed
    qed
  qed
qed

theorem purge_before_create_witness:
  "take 4 (snd (main scenario scenario_cfg scenario_environ)) = purge_requests
   \<and> snd (main scenario scenario_cfg scenario_environ) ! 12
       = CreateDocument ''parent-1'' (JString ''prod'') scenario_report"
proof -
  have i: "12 < length scenario_requests"
    and ev: "scenario_requests ! 12 = CreateDocument ''parent-1'' (JString ''prod'') scenario_report"
    by (simp_all add: scenario_requests_def prod_published_def purge_requests_def
          report_requests_def)
  from purge_before_create [OF scenario_run i ev] obtain parent_id children
    where p: "outline_get_document_uuid scenario [] (GetOutlineClient scenario_cfg) = Inr parent_id"
      and c: "outline_get_children scenario [GetDocumentUuid] (GetOutlineClient scenario_cfg)
                parent_id = Inr children"
      and t: "take (2 + length children) scenario_requests
                = [GetDocumentUuid, GetChildren parent_id] @ map DeleteDocument children"
    by blast
  from p have "parent_id = ''parent-1''" by (simp add: scenario_def)
  moreover from c have "children = [''old-1'', ''old-2'']" by (simp add: scenario_def)
  ultimately have "take 4 scenario_requests = purge_requests"
    using t by (simp add: purge_requests_def)
  then show ?thesis using ev by (simp add: scenario_run)
qed

text \<open>
  C8. Two or more organizations are configured, the parent is resolved and purged, the
  first organization is published, and the processing of the second raises at an AWS
  request. Then the creation of the first organization's document, which returned without
  an exception, is the last request before those of the second organization; \<^verbatim>\<open>main\<close> raises the exception
  that AWS request raised; every request after the first organization's document was issued
  with the second organization's credentials, so no further organization was processed.
\<close>

theorem second_organization_failure:
  assumes resolve: "outline_get_document_uuid w [] (GetOutlineClient cfg) = Inr parent_id"
      and children:
        "outline_get_children w [GetDocumentUuid] (GetOutlineClient cfg) parent_id = Inr children"
      and purge: "delete_loop w (GetOutlineClient cfg) children
                    [GetDocumentUuid, GetChildren parent_id] = (Inr (), tr0)"
      and creds: "get_credentials w environ = Inr accounts_creds"
      and two: "py_iter accounts_creds = Inr (c1 # c2 # rest)"
      and first: "process_creds w (GetOutlineClient cfg) parent_id c1 ([], []) tr0 = (Inr vars1, tr1)"
      and second: "process_creds w (GetOutlineClient cfg) parent_id c2 vars1 tr1 = (Inl e, tr2)"
      and fetch: "last tr2 = AwsCall cl op"
  shows "main w cfg environ = (Inl e, tr2)
       \<and> (\<exists>title body. subscript c1 ''name'' = Inr title
             \<and> tr1 = butlast tr1 @ [CreateDocument parent_id title body]
             \<and> outline_create_document w (butlast tr1) (GetOutlineClient cfg) parent_id title body
                 = Inr ())
       \<and> (\<exists>k s ext. subscript c2 ''access_key'' = Inr k \<and> subscript c2 ''secret_key'' = Inr s
             \<and> tr2 = tr1 @ ext \<and> ext \<noteq> [] \<and> list_all (issued_with k s) ext)
       \<and> aws_raises w (butlast tr2) cl op = Some e"
proof -
  let ?oc = "GetOutlineClient cfg"
  have "creds_loop w ?oc parent_id (c1 # c2 # rest) ([], []) tr0 = (Inl e, tr2)"
    using first second by simp
  then have run: "main w cfg environ = (Inl e, tr2)"
    using resolve children purge creds two
    by (simp add: main_def get_document_uuid_def get_children_documents_to_delete_def)
  from process_creds_cases [OF first] obtain title trm body
    where t: "subscript c1 ''name'' = Inr title"
      and tr1: "tr1 = trm @ [CreateDocument parent_id title body]"
      and ok: "outline_create_document w trm ?oc parent_id title body = Inr ()"
    by auto
  have one: "subscript c1 ''name'' = Inr title
      \<and> tr1 = butlast tr1 @ [CreateDocument parent_id title body]
      \<and> outline_create_document w (butlast tr1) ?oc parent_id title body = Inr ()"
    using t tr1 ok by simp
  have l1: "last tr1 = CreateDocument parent_id title body"
    using tr1 by simp
  from process_creds_cases [OF second]
  consider "tr2 = tr1"
    | k s where "subscript c2 ''access_key'' = Inr k" "subscript c2 ''secret_key'' = Inr s"
        "aws_only w k s tr1 (Some e, tr2)"
    | trn name' body' where "tr2 = trn @ [CreateDocument parent_id name' body']"
    by auto
  then have "(\<exists>k s ext. subscript c2 ''access_key'' = Inr k \<and> subscript c2 ''secret_key'' = Inr s
             \<and> tr2 = tr1 @ ext \<and> ext \<noteq> [] \<and> list_all (issued_with k s) ext)
       \<and> aws_raises w (butlast tr2) cl op = Some e"
  proof cases
    case 1
    then show ?thesis using fetch l1 by simp
  next
    case 2
    from 2(3) obtain ext cl' op' where ext: "tr2 = tr1 @ ext" "list_all (issued_with k s) ext"
        "ext \<noteq> []" "last ext = AwsCall cl' op'"
        "aws_raises w (tr1 @ butlast ext) cl' op' = Some e"
      by (auto simp: aws_only_def)
    have "last tr2 = last ext" "butlast tr2 = tr1 @ butlast ext"
      using ext(1,3) by (simp_all add: butlast_append)
    then have "aws_raises w (butlast tr2) cl op = Some e"
      using ext(4,5) fetch by simp
    then show ?thesis using 2(1,2) ext(1,2,3) by blast
  next
    case 3
    then show ?thesis using fetch by simp
  qed
  with run one show ?thesis by blast
qed

theorem second_organization_failure_witness:
  "main scenario scenario_cfg scenario_environ
     = (Inl (ExternalError ''AccessDenied''), scenario_requests)
   \<and> prod_published = butlast prod_published
         @ [CreateDocument ''parent-1'' (JString ''prod'') scenario_report]
   \<and> scenario_requests = prod_published
         @ [AwsCall (Client ''organizations'' (JString ''AK2'') (JString ''S2'')) ListAccounts]
   \<and> aws_raises scenario (butlast scenario_requests)
         (Client ''organizations'' (JString ''AK2'') (JString ''S2'')) ListAccounts
       = Some (ExternalError ''AccessDenied'')"
proof -
  have resolve: "outline_get_document_uuid scenario [] (GetOutlineClient scenario_cfg) = Inr ''parent-1''"
    and children: "outline_get_children scenario [GetDocumentUuid] (GetOutlineClient scenario_cfg)
                     ''parent-1'' = Inr [''old-1'', ''old-2'']"
    by (simp_all add: scenario_def)
  have creds: "get_credentials scenario scenario_environ = Inr (JArray [creds_prod, creds_dev])"
    by (simp add: get_credentials_def scenario_environ_def scenario_def creds_text_def)
  have two: "py_iter (JArray [creds_prod, creds_dev]) = Inr (creds_prod # creds_dev # [])"
    by simp
  have fetch: "last scenario_requests
                 = AwsCall (Client ''organizations'' (JString ''AK2'') (JString ''S2'')) ListAccounts"
    by (simp add: scenario_requests_def)
  show ?thesis
    using second_organization_failure
      [OF resolve children scenario_purge creds two scenario_prod scenario_dev fetch]
    by (simp add: scenario_requests_def prod_published_def)
qed

section \<open>The report\<close>

lemma accounts_loop_fetch:
  "accounts_loop w c as md tr =
     (case fetch_descriptions w c as tr of
        (Inl e, tr') \<Rightarrow> (Inl e, tr')
      | (Inr ds, tr') \<Rightarrow> (Inr (md @ concat (map2 account_row as ds)), tr'))"
  by (induction as arbitrary: md tr) (simp_all split: prod.splits sum.splits)

lemma fetch_descriptions_answers:
  "fetch_descriptions w c as tr = (Inr ds, tr') \<Longrightarrow>
     length ds = length as
     \<and> (\<forall>i<length as. \<exists>h tags. aws_list_tags_for_resource w h c (Id' (as ! i)) = Inr tags
                           \<and> ds ! i = get_account_tags_loop tags)"
proof (induction as arbitrary: tr ds)
  case Nil
  then show ?case by simp
next
  case (Cons a as)
  from Cons.prems obtain tags tr1 ds' where
      t: "aws_list_tags_for_resource w tr c (Id' a) = Inr tags"
    and r: "fetch_descriptions w c as tr1 = (Inr ds', tr')"
    and ds: "ds = get_account_tags_loop tags # ds'"
    by (auto simp: get_account_tags_def split: sum.splits prod.splits)
  from Cons.IH [OF r] have len: "length ds' = length as"
    and a: "\<forall>i<length as. \<exists>h tags. aws_list_tags_for_resource w h c (Id' (as ! i)) = Inr tags
                           \<and> ds' ! i = get_account_tags_loop tags"
    by simp_all
  have "\<exists>h tags. aws_list_tags_for_resource w h c (Id' ((a # as) ! i)) = Inr tags
          \<and> ds ! i = get_account_tags_loop tags" if "i < length (a # as)" for i
  proof (cases i)
    case 0
    then show ?thesis using t ds by auto
  next
    case (Suc i')
    then show ?thesis using a that ds by simp
  qed
  then show ?case using len ds by simp
qed

lemma access_keys_loop_fetch:
  "access_keys_loop w self u keys md tr =
     (case fetch_key_descriptions w self u keys tr of
        (Inl e, tr') \<Rightarrow> (Inl e, tr')
      | (Inr ks, tr') \<Rightarrow> (Inr (md @ concat (map (\<lambda>k. key_row u (fst k) (snd k)) ks)), tr'))"
  by (induction keys arbitrary: md tr) (simp_all split: prod.splits sum.splits)

lemma fetch_key_descriptions_answers:
  "fetch_key_descriptions w self u keys tr = (Inr ks, tr') \<Longrightarrow>
     map fst ks = map AccessKeyId keys
     \<and> (\<forall>j<length keys. \<exists>h tags. aws_list_user_tags w h (get_aws_client self ''iam'') u = Inr tags
                             \<and> snd (ks ! j) = user_tags_loop tags ''No Description'')"
proof (induction keys arbitrary: tr ks)
  case Nil
  then show ?case by simp
next
  case (Cons k keys)
  let ?tr1 = "tr @ [AwsCall (get_aws_client self ''iam'') (ListUserTags u)]"
  from Cons.prems obtain tags ks' where
      t: "aws_list_user_tags w tr (get_aws_client self ''iam'') u = Inr tags"
    and r: "fetch_key_descriptions w self u keys ?tr1 = (Inr ks', tr')"
    and ks: "ks = (AccessKeyId k, user_tags_loop tags ''No Description'') # ks'"
    by (auto split: sum.splits prod.splits)
  from Cons.IH [OF r] have m: "map fst ks' = map AccessKeyId keys"
    and a: "\<forall>j<length keys. \<exists>h tags. aws_list_user_tags w h (get_aws_client self ''iam'') u = Inr tags
                             \<and> snd (ks' ! j) = user_tags_loop tags ''No Description''"
    by simp_all
  have "\<exists>h tags. aws_list_user_tags w h (get_aws_client self ''iam'') u = Inr tags
          \<and> snd (ks ! j) = user_tags_loop tags ''No Description''" if "j < length (k # keys)" for j
  proof (cases j)
    case 0
    then show ?thesis using t ks by auto
  next
    case (Suc j')
    then show ?thesis using a that ks by simp
  qed
  then show ?case using m ks by simp
qed

lemma users_loop_fetch:
  "users_loop w self users md tr =
     (case fetch_users w self users tr of
        (Inl e, tr') \<Rightarrow> (Inl e, tr')
      | (Inr us, tr') \<Rightarrow> (Inr (md @ concat (map user_rows us)), tr'))"
proof (induction users arbitrary: md tr)
  case Nil
  show ?case by simp
next
  case (Cons u users)
  obtain r tr1 where g: "get_user_access_keys w self (UserName u) tr = (r, tr1)"
    by (cases "get_user_access_keys w self (UserName u) tr")
  show ?case
  proof (cases r)
    case (Inl e)
    then show ?thesis using g by simp
  next
    case (Inr keys)
    note keys = this
    show ?thesis
    proof (cases "keys = []")
      case True
      then show ?thesis
        using g keys Cons.IH by (simp add: user_rows_def split: prod.splits sum.splits)
    next
      case False
      obtain r2 tr2 where f: "fetch_key_descriptions w self (UserName u) keys tr1 = (r2, tr2)"
        by (cases "fetch_key_descriptions w self (UserName u) keys tr1")
      show ?thesis
      proof (cases r2)
        case (Inl e)
        then show ?thesis
          using g keys False f by (simp add: access_keys_loop_fetch)
      next
        case (Inr ks)
        from fetch_key_descriptions_answers f Inr have "map fst ks = map AccessKeyId keys"
          by blast
        then have "ks \<noteq> []" using False by auto
        then show ?thesis
          using g keys False f Inr Cons.IH
          by (simp add: access_keys_loop_fetch user_rows_def split: prod.splits sum.splits)
      qed
    qed
  qed
qed



lemma sort_key_zip_sorted:
  assumes "length ds = length accounts"
  shows "sort_key (\<lambda>ad. dt_key (JoinedTimestamp (fst ad)))
           (zip (sort_key (\<lambda>x. dt_key (JoinedTimestamp x)) accounts) ds)
         = zip (sort_key (\<lambda>x. dt_key (JoinedTimestamp x)) accounts) ds"
proof -
  let ?s = "sort_key (\<lambda>x. dt_key (JoinedTimestamp x)) accounts"
  have "map (\<lambda>ad. dt_key (JoinedTimestamp (fst ad))) (zip ?s ds)
          = map (\<lambda>x. dt_key (JoinedTimestamp x)) (map fst (zip ?s ds))"
    by simp
  also have "map fst (zip ?s ds) = ?s"
    using assms by simp
  finally have "sorted (map (\<lambda>ad. dt_key (JoinedTimestamp (fst ad))) (zip ?s ds))"
    by simp
  then show ?thesis
    by (rule sort_key_id_if_sorted)
qed

lemma create_markdown_render:
  "create_markdown w self accounts org_client tr =
     (case fetch_report_data w self accounts org_client tr of
        (Inl e, tr') \<Rightarrow> (Inl e, tr')
      | (Inr d, tr') \<Rightarrow>
          (Inr (render (py_format w (aws_account_name self)) (fst d) (snd d)), tr'))"
proof -
  let ?s = "sort_key (\<lambda>x. dt_key (JoinedTimestamp x)) accounts"
  obtain r1 tr1 where f1: "fetch_descriptions w org_client ?s tr = (r1, tr1)"
    by (cases "fetch_descriptions w org_client ?s tr")
  show ?thesis
  proof (cases r1)
    case (Inl e)
    then show ?thesis
      using f1 by (simp add: create_markdown_def fetch_report_data_def accounts_loop_fetch)
  next
    case (Inr ds)
    with f1 fetch_descriptions_answers [of w org_client ?s tr ds tr1]
    have len: "length ds = length accounts" by simp
    show ?thesis
      using f1 Inr sort_key_zip_sorted [OF len]
      by (simp add: create_markdown_def fetch_report_data_def accounts_loop_fetch
            users_loop_fetch render_def case_prod_unfold split: prod.splits sum.splits)
  qed
qed














section \<open>What a document depends on\<close>

lemma process_creds_vars:
  "outcome (process_creds w oc pid c vars tr) = outcome (process_creds w oc pid c vars' tr)"
  by (simp add: process_creds_def outcome_def Let_def split: sum.splits prod.splits)

lemma creds_loop_vars:
  "outcome (creds_loop w oc pid cs vars tr) = outcome (creds_loop w oc pid cs vars' tr)"
proof (induction cs arbitrary: vars vars' tr)
  case Nil
  show ?case by (simp add: outcome_def)
next
  case (Cons c cs)
  obtain r1 tr1 where p1: "process_creds w oc pid c vars tr = (r1, tr1)"
    by (cases "process_creds w oc pid c vars tr")
  obtain r2 tr2 where p2: "process_creds w oc pid c vars' tr = (r2, tr2)"
    by (cases "process_creds w oc pid c vars' tr")
  have eq: "outcome (r1, tr1) = outcome (r2, tr2)"
    using process_creds_vars [of w oc pid c vars tr vars'] p1 p2 by simp
  show ?case
  proof (cases r1)
    case (Inl e)
    then have "r2 = Inl e" "tr2 = tr1"
      using eq by (cases r2; simp)+
    then show ?thesis using p1 p2 Inl by simp
  next
    case (Inr v1)
    then obtain v2 where "r2 = Inr v2" "tr2 = tr1"
      using eq by (cases r2) simp_all
    then show ?thesis using p1 p2 Inr Cons.IH [of v1 tr1 v2] by simp
  qed
qed

lemma fetch_descriptions_same:
  assumes "\<And>h h' x. aws_list_tags_for_resource w h c x = aws_list_tags_for_resource w' h' c x"
  shows "fst (fetch_descriptions w c as tr) = fst (fetch_descriptions w' c as tr')"
proof (induction as arbitrary: tr tr')
  case Nil
  show ?case by simp
next
  case (Cons a as)
  let ?ev = "AwsCall c (ListTagsForResource (Id' a))"
  have eq: "aws_list_tags_for_resource w tr c (Id' a) = aws_list_tags_for_resource w' tr' c (Id' a)"
    by (rule assms)
  show ?case
  proof (cases "aws_list_tags_for_resource w' tr' c (Id' a)")
    case (Inl e)
    then show ?thesis using eq by (simp add: get_account_tags_def)
  next
    case (Inr tags)
    obtain r1 t1 where f1: "fetch_descriptions w c as (tr @ [?ev]) = (r1, t1)"
      by (cases "fetch_descriptions w c as (tr @ [?ev])")
    obtain r2 t2 where f2: "fetch_descriptions w' c as (tr' @ [?ev]) = (r2, t2)"
      by (cases "fetch_descriptions w' c as (tr' @ [?ev])")
    have "r1 = r2"
      using Cons.IH [of "tr @ [?ev]" "tr' @ [?ev]"] f1 f2 by simp
    then show ?thesis
      using eq Inr f1 f2 by (cases r2) (simp_all add: get_account_tags_def)
  qed
qed

lemma fetch_key_descriptions_same:
  assumes "\<And>h h' x. aws_list_user_tags w h (get_aws_client self ''iam'') x
                      = aws_list_user_tags w' h' (get_aws_client self ''iam'') x"
  shows "fst (fetch_key_descriptions w self u keys tr)
           = fst (fetch_key_descriptions w' self u keys tr')"
proof (induction keys arbitrary: tr tr')
  case Nil
  show ?case by simp
next
  case (Cons k keys)
  let ?c = "get_aws_client self ''iam''"
  let ?ev = "AwsCall ?c (ListUserTags u)"
  have eq: "aws_list_user_tags w tr ?c u = aws_list_user_tags w' tr' ?c u"
    by (rule assms)
  show ?case
  proof (cases "aws_list_user_tags w' tr' ?c u")
    case (Inl e)
    then show ?thesis using eq by simp
  next
    case (Inr tags)
    obtain r1 t1 where f1: "fetch_key_descriptions w self u keys (tr @ [?ev]) = (r1, t1)"
      by (cases "fetch_key_descriptions w self u keys (tr @ [?ev])")
    obtain r2 t2 where f2: "fetch_key_descriptions w' self u keys (tr' @ [?ev]) = (r2, t2)"
      by (cases "fetch_key_descriptions w' self u keys (tr' @ [?ev])")
    have "r1 = r2"
      using Cons.IH [of "tr @ [?ev]" "tr' @ [?ev]"] f1 f2 by simp
    then show ?thesis
      using eq Inr f1 f2 by (cases r2) simp_all
  qed
qed

lemma fetch_users_same:
  assumes tags: "\<And>h h' x. aws_list_user_tags w h (get_aws_client self ''iam'') x
                      = aws_list_user_tags w' h' (get_aws_client self ''iam'') x"
      and keys: "\<And>h h' x. aws_list_access_keys w h (get_aws_client self ''iam'') x
                      = aws_list_access_keys w' h' (get_aws_client self ''iam'') x"
  shows "fst (fetch_users w self users tr) = fst (fetch_users w' self users tr')"
proof (induction users arbitrary: tr tr')
  case Nil
  show ?case by simp
next
  case (Cons u users)
  let ?c = "get_aws_client self ''iam''"
  let ?ev = "AwsCall ?c (ListAccessKeys (UserName u))"
  have eq: "aws_list_access_keys w tr ?c (UserName u) = aws_list_access_keys w' tr' ?c (UserName u)"
    by (rule keys)
  show ?case
  proof (cases "aws_list_access_keys w' tr' ?c (UserName u)")
    case (Inl e)
    then show ?thesis using eq by (simp add: get_user_access_keys_def)
  next
    case (Inr ks)
    obtain r1 t1 where f1: "fetch_key_descriptions w self (UserName u) ks (tr @ [?ev]) = (r1, t1)"
      by (cases "fetch_key_descriptions w self (UserName u) ks (tr @ [?ev])")
    obtain r2 t2 where f2: "fetch_key_descriptions w' self (UserName u) ks (tr' @ [?ev]) = (r2, t2)"
      by (cases "fetch_key_descriptions w' self (UserName u) ks (tr' @ [?ev])")
    have r: "r1 = r2"
      using fetch_key_descriptions_same [of w self w' "UserName u" ks "tr @ [?ev]" "tr' @ [?ev]"]
        tags f1 f2 by simp
    show ?thesis
    proof (cases r2)
      case (Inl e)
      then show ?thesis
        using eq Inr f1 f2 r by (simp add: get_user_access_keys_def)
    next
      case (Inr kds)
      obtain r3 t3 where g1: "fetch_users w self users t1 = (r3, t3)"
        by (cases "fetch_users w self users t1")
      obtain r4 t4 where g2: "fetch_users w' self users t2 = (r4, t4)"
        by (cases "fetch_users w' self users t2")
      have "r3 = r4"
        using Cons.IH [of t1 t2] g1 g2 by simp
      then show ?thesis
        using eq \<open>aws_list_access_keys w' tr' ?c (UserName u) = Inr ks\<close> f1 f2 r Inr g1 g2
        by (cases r4) (simp_all add: get_user_access_keys_def)
    qed
  qed
qed

lemma create_markdown_same:
  assumes same: "same_answers w w' k s"
      and key: "aws_access_key_id self = k" and secret: "aws_secret_access_key self = s"
      and fmt: "py_format w (aws_account_name self) = py_format w' (aws_account_name self)"
  shows "fst (create_markdown w self accounts (Client svc k s) tr)
           = fst (create_markdown w' self accounts (Client svc k s) tr')"
proof -
  let ?s = "sort_key (\<lambda>x. dt_key (JoinedTimestamp x)) accounts"
  let ?c = "Client svc k s"
  let ?iam = "get_aws_client self ''iam''"
  have iam: "?iam = Client ''iam'' k s"
    using key secret by (simp add: get_aws_client_def)
  have t: "\<And>h h' x. aws_list_tags_for_resource w h ?c x = aws_list_tags_for_resource w' h' ?c x"
    and ut: "\<And>h h' x. aws_list_user_tags w h ?iam x = aws_list_user_tags w' h' ?iam x"
    and ak: "\<And>h h' x. aws_list_access_keys w h ?iam x = aws_list_access_keys w' h' ?iam x"
    and lu: "\<And>h h'. aws_list_users w h ?iam = aws_list_users w' h' ?iam"
    using same unfolding same_answers_def iam by blast+
  obtain r1 t1 where f1: "fetch_descriptions w ?c ?s tr = (r1, t1)"
    by (cases "fetch_descriptions w ?c ?s tr")
  obtain r2 t2 where f2: "fetch_descriptions w' ?c ?s tr' = (r2, t2)"
    by (cases "fetch_descriptions w' ?c ?s tr'")
  have r12: "r1 = r2"
    using fetch_descriptions_same [of w ?c w' ?s tr tr'] t f1 f2 by simp
  have "fst (fetch_report_data w self accounts ?c tr) = fst (fetch_report_data w' self accounts ?c tr')"
  proof (cases r2)
    case (Inl e)
    then show ?thesis using f1 f2 r12 by (simp add: fetch_report_data_def)
  next
    case (Inr ds)
    note ds = this
    let ?ev = "AwsCall ?iam ListUsers"
    have eq: "aws_list_users w t1 ?iam = aws_list_users w' t2 ?iam"
      by (rule lu)
    show ?thesis
    proof (cases "aws_list_users w' t2 ?iam")
      case (Inl e)
      then show ?thesis
        using f1 f2 r12 ds eq by (simp add: fetch_report_data_def list_iam_users_def Let_def)
    next
      case (Inr pages)
      let ?us = "foldl (\<lambda>users page. users @ page) [] pages"
      obtain r3 t3 where g1: "fetch_users w self ?us (t1 @ [?ev]) = (r3, t3)"
        by (cases "fetch_users w self ?us (t1 @ [?ev])")
      obtain r4 t4 where g2: "fetch_users w' self ?us (t2 @ [?ev]) = (r4, t4)"
        by (cases "fetch_users w' self ?us (t2 @ [?ev])")
      have "r3 = r4"
        using fetch_users_same [of w self w' ?us "t1 @ [?ev]" "t2 @ [?ev]"] ut ak g1 g2 by simp
      then show ?thesis
        using f1 f2 r12 ds eq Inr g1 g2
        by (cases r4) (simp_all add: fetch_report_data_def list_iam_users_def Let_def)
    qed
  qed
  then show ?thesis
    using fmt
    by (cases "fetch_report_data w self accounts ?c tr";
        cases "fetch_report_data w' self accounts ?c tr'")
       (auto simp: create_markdown_render split: sum.splits)
qed

lemma created_append: "created (xs @ ys) = created xs @ created ys"
  by (induction xs rule: created.induct) simp_all

lemma created_issued_with: "list_all (issued_with k s) evs \<Longrightarrow> created evs = []"
  by (induction evs rule: created.induct) simp_all

lemma aws_only_created:
  assumes "aws_only w k s tr (err, tr')"
  shows "length tr \<le> length tr'" and "created (drop (length tr) tr') = []"
  using assms by (auto simp: aws_only_def created_issued_with)

lemma process_creds_created:
  assumes name: "subscript c ''name'' = Inr name"
      and key: "subscript c ''access_key'' = Inr k"
      and secret: "subscript c ''secret_key'' = Inr s"
  shows "created (drop (length tr) (snd (process_creds w oc pid c vars tr))) =
           (case get_aws_accounts w (Client ''organizations'' k s) tr of
              (Inl e, tr1) \<Rightarrow> []
            | (Inr accounts, tr1) \<Rightarrow>
                (case fst (create_markdown w
                             \<lparr>aws_account_name = name, aws_access_key_id = k,
                              aws_secret_access_key = s\<rparr>
                             accounts (Client ''organizations'' k s) tr1) of
                   Inl e \<Rightarrow> []
                 | Inr body \<Rightarrow> [(name, body)]))"
proof -
  let ?org = "\<lparr>aws_account_name = name, aws_access_key_id = k, aws_secret_access_key = s\<rparr>"
  let ?cl = "Client ''organizations'' k s"
  obtain r1 tr1 where g: "get_aws_accounts w ?cl tr = (r1, tr1)"
    by (cases "get_aws_accounts w ?cl tr")
  have a1: "aws_only w k s tr (outcome (r1, tr1))"
    using get_aws_accounts_aws_only [of w k s tr "''organizations''"] g by simp
  show ?thesis
  proof (cases r1)
    case (Inl e)
    then show ?thesis
      using name key secret g a1 aws_only_created(2) [of w k s tr "Some e" tr1]
      by (simp add: process_creds_def get_aws_client_def)
  next
    case (Inr accounts)
    note accounts = this
    obtain r2 tr2 where m: "create_markdown w ?org accounts ?cl tr1 = (r2, tr2)"
      by (cases "create_markdown w ?org accounts ?cl tr1")
    have "aws_only w k s tr1 (outcome (r2, tr2))"
      using create_markdown_aws_only [of ?org k s w tr1 accounts "''organizations''"] m
      by simp
    then have a2: "aws_only w k s tr (outcome (r2, tr2))"
      using a1 accounts by (auto intro: aws_only_trans)
    show ?thesis
    proof (cases r2)
      case (Inl e)
      then show ?thesis
        using name key secret g accounts m a2 aws_only_created(2) [of w k s tr "Some e" tr2]
        by (simp add: process_creds_def get_aws_client_def)
    next
      case (Inr body)
      have le: "length tr \<le> length tr2" and none: "created (drop (length tr) tr2) = []"
        using a2 Inr aws_only_created [of w k s tr None tr2] by simp_all
      have "snd (process_creds w oc pid c vars tr) = tr2 @ [CreateDocument pid name body]"
        using name key secret g accounts m Inr
        by (simp add: process_creds_def get_aws_client_def create_document_def split: sum.splits)
      then show ?thesis
        using g accounts m Inr le none by (simp add: created_append)
    qed
  qed
qed

text \<open>
  C10. The loop's variables \<^verbatim>\<open>all_accounts\<close> and \<^verbatim>\<open>markdown_content\<close> are dead on
  entry: whatever they hold, the loop issues the same requests, so creates the same
  documents, and ends the same way. And the document an iteration creates is a function
  of the organization's credential entry and of the data AWS returns for those
  credentials: in two worlds that answer the requests issued with these credentials alike,
  the iteration creates the same document, whatever the variables hold, whatever was
  requested before, whatever the document store and the other organizations answer.
\<close>

theorem document_depends_on_own_organization:
  "outcome (creds_loop w oc pid cs vars tr) = outcome (creds_loop w oc pid cs vars' tr)
 \<and> (subscript c ''name'' = Inr name \<and> subscript c ''access_key'' = Inr k
      \<and> subscript c ''secret_key'' = Inr s
      \<and> same_answers w w' k s \<and> py_format w name = py_format w' name \<longrightarrow>
    created (drop (length tr) (snd (process_creds w oc pid c vars tr)))
      = created (drop (length tr') (snd (process_creds w' oc' pid' c vars' tr'))))"
proof -
  have "created (drop (length tr) (snd (process_creds w oc pid c vars tr)))
      = created (drop (length tr') (snd (process_creds w' oc' pid' c vars' tr')))"
    if name: "subscript c ''name'' = Inr name" and key: "subscript c ''access_key'' = Inr k"
      and secret: "subscript c ''secret_key'' = Inr s"
      and same: "same_answers w w' k s" and fmt: "py_format w name = py_format w' name"
  proof -
    let ?org = "\<lparr>aws_account_name = name, aws_access_key_id = k, aws_secret_access_key = s\<rparr>"
    let ?cl = "Client ''organizations'' k s"
    obtain r1 t1 where g1: "get_aws_accounts w ?cl tr = (r1, t1)"
      by (cases "get_aws_accounts w ?cl tr")
    obtain r2 t2 where g2: "get_aws_accounts w' ?cl tr' = (r2, t2)"
      by (cases "get_aws_accounts w' ?cl tr'")
    have "aws_list_accounts w tr ?cl = aws_list_accounts w' tr' ?cl"
      using same unfolding same_answers_def by blast
    then have r: "r1 = r2"
      using g1 g2 by (auto simp: get_aws_accounts_def split: sum.splits)
    have "fst (create_markdown w ?org accounts ?cl t1) = fst (create_markdown w' ?org accounts ?cl t2)"
      for accounts
      using create_markdown_same [where w = w and w' = w' and k = k and s = s and self = ?org
          and svc = "''organizations''" and accounts = accounts and tr = t1 and tr' = t2] same fmt
      by simp
    then show ?thesis
      using r g1 g2
      by (cases r2)
        (simp_all add: process_creds_created [OF name key secret])
  qed
  then show ?thesis
    using creds_loop_vars [of w oc pid cs vars tr vars'] by blast
qed

theorem document_depends_on_own_organization_witness:
  "outcome (creds_loop scenario (GetOutlineClient scenario_cfg) ''parent-1''
              [creds_prod, creds_dev] ([], []) purge_requests)
     = outcome (creds_loop scenario (GetOutlineClient scenario_cfg) ''parent-1''
                  [creds_prod, creds_dev] ([acct_a], ''stale'') purge_requests)
   \<and> created (drop (length ([] :: event list))
        (snd (process_creds scenario_other (GetOutlineClient scenario_cfg) ''parent-2'' creds_prod
                ([acct_a], ''stale'') [])))
       = [(JString ''prod'', scenario_report)]"
proof -
  have s: "subscript creds_prod ''name'' = Inr (JString ''prod'')
      \<and> subscript creds_prod ''access_key'' = Inr (JString ''AK1'')
      \<and> subscript creds_prod ''secret_key'' = Inr (JString ''S1'')
      \<and> same_answers scenario scenario_other (JString ''AK1'') (JString ''S1'')
      \<and> py_format scenario (JString ''prod'') = py_format scenario_other (JString ''prod'')"
    using same_answers_scenario by (simp add: creds_prod_def py_format_def)
  have c: "created (drop (length purge_requests) prod_published) = [(JString ''prod'', scenario_report)]"
    by (simp add: prod_published_def purge_requests_def report_requests_def prod_client_def)
  from document_depends_on_own_organization
    [where w = scenario and oc = "GetOutlineClient scenario_cfg" and pid = "''parent-1''"
       and cs = "[creds_prod, creds_dev]" and vars = "([], [])" and tr = purge_requests
       and vars' = "([acct_a], ''stale'')" and c = creds_prod and name = "JString ''prod''"
       and k = "JString ''AK1''" and s = "JString ''S1''" and w' = scenario_other
       and tr' = "[]" and oc' = "GetOutlineClient scenario_cfg" and pid' = "''parent-2''"]
    s c
  show ?thesis
    by (simp add: scenario_prod)
qed

end
